theory Spec2Isabelle
  imports Complex_Main
begin

section \<open>Errors and Python primitives\<close>

text \<open>
  Every exception of the source is a value. \<open>ValueError\<close> and \<open>IndexError\<close> are the
  two built-in exceptions the shape normalizer can raise, \<open>ValidationError\<close> is what the
  pydantic request models raise on a violated field constraint, and the remaining
  constructors stand for whatever the collaborators (the two HTTP transports, the image
  decoder, the inference provider, the progress callback) may raise.
\<close>

datatype error =
    ValueError
  | IndexError
  | ValidationError
  | CVATError nat
  | DataUpError nat
  | ImageError
  | InferenceError
  | CallbackError

text \<open>
  Coordinates are Python floats in the source. They are modelled as exact rationals:
  rounding of float arithmetic, infinities and NaN are outside the model. \<open>int(q)\<close>
  truncates towards zero.
\<close>

definition py_int :: "rat \<Rightarrow> int" where
  "py_int q = (if 0 \<le> q then \<lfloor>q\<rfloor> else \<lceil>q\<rceil>)"

text \<open>\<open>str(n)\<close> for an integer, and for an optional integer (\<open>str(None)\<close>).\<close>

fun str_nat :: "nat \<Rightarrow> string" where
  "str_nat n =
     (if n < 10 then [''0123456789'' ! n]
      else str_nat (n div 10) @ [''0123456789'' ! (n mod 10)])"

declare str_nat.simps [simp del]

definition str_int :: "int \<Rightarrow> string" where
  "str_int i = (if i < 0 then ''-'' @ str_nat (nat (- i)) else str_nat (nat i))"

definition str_opt_int :: "int option \<Rightarrow> string" where
  "str_opt_int v = (case v of None \<Rightarrow> ''None'' | Some i \<Rightarrow> str_int i)"

text \<open>\<open>min(xs)\<close> and \<open>max(xs)\<close> of a non-empty list; the source only calls them so.\<close>

definition py_min :: "rat list \<Rightarrow> rat" where
  "py_min xs = fold min (tl xs) (hd xs)"

definition py_max :: "rat list \<Rightarrow> rat" where
  "py_max xs = fold max (tl xs) (hd xs)"

text \<open>
  The three list comprehensions over \<open>range(0, len(points), 2)\<close>:
  \<^item> \<open>[(points[i], points[i + 1]) for i in ...]\<close> raises IndexError at the last index of
    an odd-length list (\<open>coord_pairs\<close>);
  \<^item> \<open>[points[i] for i in ...]\<close> never raises (\<open>even_coords\<close>);
  \<^item> \<open>[points[i + 1] for i in ...]\<close> raises on an odd-length list
    (\<open>odd_coords_checked\<close>), unless it is guarded by \<open>if i + 1 < len(points)\<close>
    (\<open>odd_coords\<close>).
\<close>

fun coord_pairs :: "'a list \<Rightarrow> error + ('a \<times> 'a) list" where
  "coord_pairs [] = Inr []"
| "coord_pairs [a] = Inl IndexError"
| "coord_pairs (a # b # rest) =
     (case coord_pairs rest of Inl e \<Rightarrow> Inl e | Inr ps \<Rightarrow> Inr ((a, b) # ps))"

fun even_coords :: "'a list \<Rightarrow> 'a list" where
  "even_coords [] = []"
| "even_coords [a] = [a]"
| "even_coords (a # b # rest) = a # even_coords rest"

fun odd_coords_checked :: "'a list \<Rightarrow> error + 'a list" where
  "odd_coords_checked [] = Inr []"
| "odd_coords_checked [a] = Inl IndexError"
| "odd_coords_checked (a # b # rest) =
     (case odd_coords_checked rest of Inl e \<Rightarrow> Inl e | Inr ys \<Rightarrow> Inr (b # ys))"

fun odd_coords :: "'a list \<Rightarrow> 'a list" where
  "odd_coords [] = []"
| "odd_coords [a] = []"
| "odd_coords (a # b # rest) = b # odd_coords rest"

section \<open>Data model\<close>

subsection \<open>Annotation platform models (cvat/models)\<close>

datatype ShapeType =
  RECTANGLE | POLYGON | POLYLINE | POINTS | ELLIPSE | CUBOID | SKELETON | MASK

text \<open>\<open>ShapeType(value)\<close>: the enum lookup by value, ValueError for a non-member.\<close>

definition ShapeType_of :: "string \<Rightarrow> error + ShapeType" where
  "ShapeType_of v =
     (if v = ''rectangle'' then Inr RECTANGLE
      else if v = ''polygon'' then Inr POLYGON
      else if v = ''polyline'' then Inr POLYLINE
      else if v = ''points'' then Inr POINTS
      else if v = ''ellipse'' then Inr ELLIPSE
      else if v = ''cuboid'' then Inr CUBOID
      else if v = ''skeleton'' then Inr SKELETON
      else if v = ''mask'' then Inr MASK
      else Inl ValueError)"

fun ShapeType_value :: "ShapeType \<Rightarrow> string" where
  "ShapeType_value RECTANGLE = ''rectangle''"
| "ShapeType_value POLYGON = ''polygon''"
| "ShapeType_value POLYLINE = ''polyline''"
| "ShapeType_value POINTS = ''points''"
| "ShapeType_value ELLIPSE = ''ellipse''"
| "ShapeType_value CUBOID = ''cuboid''"
| "ShapeType_value SKELETON = ''skeleton''"
| "ShapeType_value MASK = ''mask''"

record AttributeValue =
  av_spec_id :: int
  av_value :: string

text \<open>
  \<open>Shape\<close> with the fields the core reads (group, source, occluded, outside, z_order
  and rotation are carried by the source and never read).
\<close>

record Shape =
  sh_type :: ShapeType
  sh_frame :: int
  sh_label_id :: int
  sh_points :: "rat list"
  sh_attributes :: "AttributeValue list"

record CVATLabelAttribute =
  cla_id :: int
  cla_name :: string

record CVATLabel =
  cl_id :: int
  cl_name :: string
  cl_attributes :: "CVATLabelAttribute list"

text \<open>
  What \<open>shape_to_label\<close> accepts: a \<open>Shape\<close> object or a dict. A dict may lack any
  key (\<open>None\<close> below is the absent key), and an entry of its attribute list is a dict,
  an \<open>AttributeValue\<close> or anything else.
\<close>

datatype attr_input =
    AttrDict "int option" "string option"
  | AttrObj AttributeValue
  | AttrOther

record shape_dict =
  sd_type :: "string option"
  sd_points :: "rat list option"
  sd_attributes :: "attr_input list option"
  sd_label_id :: "int option"

datatype shape_input = ShapeDict shape_dict | ShapeObj Shape

subsection \<open>Canonical label (dataup_models)\<close>

record BoundingBox =
  bb_x :: int
  bb_y :: int
  bb_width :: int
  bb_height :: int

record Polygon =
  poly_points :: "(int \<times> int) list"

record LabelAttribute =
  la_key :: string
  la_value :: string

record Label =
  lbl_label :: string
  lbl_score :: rat
  lbl_bbox :: "BoundingBox option"
  lbl_polygon :: "Polygon option"
  lbl_attributes :: "LabelAttribute list"

text \<open>
  Modelled from the spec: \<open>Polygon.to_bbox\<close> lives in the \<open>dataup_models\<close> package,
  which is not among the sources. The specification describes it as the polygon's
  axis-aligned extent; \<open>min\<close> of an empty point list raises ValueError in Python.
\<close>

definition to_bbox :: "Polygon \<Rightarrow> error + BoundingBox" where
  "to_bbox p =
     (if poly_points p = [] then Inl ValueError
      else
        let xs = map fst (poly_points p);
            ys = map snd (poly_points p);
            x_min = fold min (tl xs) (hd xs);
            x_max = fold max (tl xs) (hd xs);
            y_min = fold min (tl ys) (hd ys);
            y_max = fold max (tl ys) (hd ys)
        in Inr \<lparr>bb_x = x_min, bb_y = y_min,
                bb_width = x_max - x_min, bb_height = y_max - y_min\<rparr>)"

section \<open>Shape normalizer (cvat/utils.py)\<close>

text \<open>Lines 22-31: reading the four fields off a dict or a \<open>Shape\<close>.\<close>

definition unpack_shape ::
  "shape_input \<Rightarrow> error + (ShapeType \<times> rat list \<times> attr_input list \<times> int option)" where
  "unpack_shape shape =
     (case shape of
        ShapeDict d \<Rightarrow>
          (case ShapeType_of (case sd_type d of None \<Rightarrow> ''rectangle'' | Some v \<Rightarrow> v) of
             Inl e \<Rightarrow> Inl e
           | Inr shape_type \<Rightarrow>
               Inr (shape_type,
                    (case sd_points d of None \<Rightarrow> [] | Some ps \<Rightarrow> ps),
                    (case sd_attributes d of None \<Rightarrow> [] | Some as \<Rightarrow> as),
                    sd_label_id d))
      | ShapeObj s \<Rightarrow>
          Inr (sh_type s, sh_points s, map AttrObj (sh_attributes s), Some (sh_label_id s)))"

text \<open>
  Lines 34-43: the label name and the \<open>spec_id \<rightarrow> attribute\<close> dict of the first
  label definition with the shape's label id. In the dict comprehension a later
  attribute with the same id replaces an earlier one.
\<close>

definition attr_map_of :: "CVATLabelAttribute list \<Rightarrow> (int \<rightharpoonup> CVATLabelAttribute)" where
  "attr_map_of attrs = fold (\<lambda>a m. m(cla_id a \<mapsto> a)) attrs Map.empty"

definition resolve_label ::
  "int option \<Rightarrow> CVATLabel list \<Rightarrow> string \<times> (int \<rightharpoonup> CVATLabelAttribute)" where
  "resolve_label label_id cvat_labels =
     (let fallback = (''label_'' @ str_opt_int label_id, Map.empty)
      in case label_id of
           None \<Rightarrow> fallback
         | Some i \<Rightarrow>
             (case find (\<lambda>l. cl_id l = i) cvat_labels of
                None \<Rightarrow> fallback
              | Some cvat_label \<Rightarrow> (cl_name cvat_label, attr_map_of (cl_attributes cvat_label))))"

text \<open>Lines 46-63: attributes with an empty value, and entries of another kind, are skipped.\<close>

definition attr_key :: "(int \<rightharpoonup> CVATLabelAttribute) \<Rightarrow> int option \<Rightarrow> string" where
  "attr_key label_attr_map spec_id =
     (case spec_id of
        None \<Rightarrow> str_opt_int None
      | Some i \<Rightarrow>
          (case label_attr_map i of
             Some a \<Rightarrow> cla_name a
           | None \<Rightarrow> str_opt_int (Some i)))"

fun convert_attributes ::
  "(int \<rightharpoonup> CVATLabelAttribute) \<Rightarrow> attr_input list \<Rightarrow> LabelAttribute list" where
  "convert_attributes m [] = []"
| "convert_attributes m (AttrOther # rest) = convert_attributes m rest"
| "convert_attributes m (AttrDict spec_id v # rest) =
     (let attr_value = (case v of None \<Rightarrow> '''' | Some s \<Rightarrow> s)
      in if attr_value = [] then convert_attributes m rest
         else \<lparr>la_key = attr_key m spec_id, la_value = attr_value\<rparr> # convert_attributes m rest)"
| "convert_attributes m (AttrObj a # rest) =
     (if av_value a = [] then convert_attributes m rest
      else \<lparr>la_key = attr_key m (Some (av_spec_id a)), la_value = av_value a\<rparr>
             # convert_attributes m rest)"

text \<open>
  Lines 69-152: the geometry branches. \<open>rect_box\<close> is the code of the rectangle branch
  and of the \<open>else\<close> of the ellipse branch, \<open>extent_box\<close> that of the points branch and
  of the branch for the other types.
\<close>

definition rect_box :: "rat \<Rightarrow> rat \<Rightarrow> rat \<Rightarrow> rat \<Rightarrow> BoundingBox" where
  "rect_box x1 y1 x2 y2 =
     (let x_min = min x1 x2; y_min = min y1 y2; x_max = max x1 x2; y_max = max y1 y2
      in \<lparr>bb_x = py_int x_min, bb_y = py_int y_min,
           bb_width = py_int (x_max - x_min), bb_height = py_int (y_max - y_min)\<rparr>)"

definition extent_box :: "rat list \<Rightarrow> rat list \<Rightarrow> BoundingBox" where
  "extent_box x_coords y_coords =
     (let x_min = py_min x_coords; x_max = py_max x_coords;
          y_min = py_min y_coords; y_max = py_max y_coords
      in \<lparr>bb_x = py_int x_min, bb_y = py_int y_min,
           bb_width = (if x_max > x_min then py_int (x_max - x_min) else 1),
           bb_height = (if y_max > y_min then py_int (y_max - y_min) else 1)\<rparr>)"

definition polygon_geometry ::
  "rat list \<Rightarrow> error + (BoundingBox option \<times> Polygon option)" where
  "polygon_geometry points =
     (case coord_pairs points of
        Inl e \<Rightarrow> Inl e
      | Inr ps \<Rightarrow>
          (let polygon = \<lparr>poly_points = map (\<lambda>(a, b). (py_int a, py_int b)) ps\<rparr>
           in case to_bbox polygon of
                Inl e \<Rightarrow> Inl e
              | Inr b \<Rightarrow> Inr (Some b, Some polygon)))"

fun shape_geometry ::
  "ShapeType \<Rightarrow> rat list \<Rightarrow> error + (BoundingBox option \<times> Polygon option)" where
  "shape_geometry RECTANGLE points =
     (if length points \<ge> 4
      then Inr (Some (rect_box (points ! 0) (points ! 1) (points ! 2) (points ! 3)), None)
      else Inr (None, None))"
| "shape_geometry POLYGON points =
     (if length points \<ge> 6 then polygon_geometry points else Inr (None, None))"
| "shape_geometry POLYLINE points =
     (if length points \<ge> 4 then polygon_geometry points else Inr (None, None))"
| "shape_geometry POINTS points =
     (if length points \<ge> 2
      then (let x_coords = even_coords points
            in case odd_coords_checked points of
                 Inl e \<Rightarrow> Inl e
               | Inr y_coords \<Rightarrow>
                   if x_coords \<noteq> [] \<and> y_coords \<noteq> []
                   then Inr (Some (extent_box x_coords y_coords), None)
                   else Inr (None, None))
      else Inr (None, None))"
| "shape_geometry ELLIPSE points =
     (if length points \<ge> 4
      then (if length points = 4
            then (let cx = points ! 0; cy = points ! 1; rx = points ! 2; ry = points ! 3
                  in Inr (Some \<lparr>bb_x = py_int (cx - rx), bb_y = py_int (cy - ry),
                                 bb_width = py_int (2 * rx), bb_height = py_int (2 * ry)\<rparr>,
                          None))
            else Inr (Some (rect_box (points ! 0) (points ! 1) (points ! 2) (points ! 3)), None))
      else Inr (None, None))"
| "shape_geometry other points =
     (if length points \<ge> 4
      then (let x_coords = even_coords points; y_coords = odd_coords points
            in if x_coords \<noteq> [] \<and> y_coords \<noteq> []
               then Inr (Some (extent_box x_coords y_coords), None)
               else Inr (None, None))
      else Inr (None, None))"

text \<open>Lines 155-157: the fallback box.\<close>

definition fallback_bbox :: BoundingBox where
  "fallback_bbox = \<lparr>bb_x = 0, bb_y = 0, bb_width = 1, bb_height = 1\<rparr>"

definition shape_to_label :: "shape_input \<Rightarrow> CVATLabel list \<Rightarrow> rat \<Rightarrow> error + Label" where
  "shape_to_label shape cvat_labels score =
     (case unpack_shape shape of
        Inl e \<Rightarrow> Inl e
      | Inr (shape_type, points, attributes, label_id) \<Rightarrow>
          (let (label_name, label_attr_map) = resolve_label label_id cvat_labels;
               label_attributes = convert_attributes label_attr_map attributes
           in case shape_geometry shape_type points of
                Inl e \<Rightarrow> Inl e
              | Inr (bbox, polygon) \<Rightarrow>
                  Inr \<lparr>lbl_label = label_name,
                       lbl_score = score,
                       lbl_bbox = (if bbox = None then Some fallback_bbox else bbox),
                       lbl_polygon = polygon,
                       lbl_attributes = label_attributes\<rparr>))"

section \<open>Annotation source adapter (cvat/client.py)\<close>

subsection \<open>Models and the transport\<close>

record Job =
  jb_id :: int
  jb_start_frame :: int
  jb_stop_frame :: int

record JobSummary =
  js_id :: int
  js_start_frame :: int
  js_stop_frame :: int

record DataMetaInfo =
  dm_start_frame :: int
  dm_stop_frame :: int
  dm_deleted_frames :: "int list"

record Annotations =
  an_shapes :: "Shape list"

record FrameImage =
  fi_frame_id :: int
  fi_data :: "nat list"

record FrameLabels =
  fl_frame_id :: int
  fl_job_id :: int
  fl_labels :: "Label list"

record 'a PaginatedResponse =
  pr_count :: int
  pr_next :: "string option"
  pr_previous :: "string option"
  pr_results :: "'a list"

text \<open>
  The annotation-source transport: what each request returns once \<open>_request\<close>, the
  status check of \<open>_handle_response\<close> and the pydantic validation of the body are
  through, or the error one of them raised. The answers do not change during a run.
\<close>

record cvat_server =
  srv_task_labels :: "int \<Rightarrow> error + CVATLabel list"
  srv_job_labels :: "int \<Rightarrow> error + CVATLabel list"
  srv_list_jobs :: "int \<Rightarrow> int \<Rightarrow> int \<Rightarrow> error + JobSummary PaginatedResponse"
  srv_job :: "int \<Rightarrow> error + Job"
  srv_data_meta :: "int \<Rightarrow> error + DataMetaInfo"
  srv_annotations :: "int \<Rightarrow> error + Annotations"
  srv_frame :: "int \<Rightarrow> int \<Rightarrow> error + nat list"

subsection \<open>Loops and generators\<close>

text \<open>
  A loop body takes the loop's state and returns the new state together with the
  exception it raised, if any. \<open>for_each\<close> is a \<open>for\<close> loop over a list: it stops at
  the first exception.
\<close>

type_synonym 's outcome = "'s \<times> error option"

fun for_each :: "('a \<Rightarrow> 's \<Rightarrow> 's outcome) \<Rightarrow> 'a list \<Rightarrow> 's \<Rightarrow> 's outcome" where
  "for_each body [] s = (s, None)"
| "for_each body (x # xs) s =
     (case body x s of
        (s', Some e) \<Rightarrow> (s', Some e)
      | (s', None) \<Rightarrow> for_each body xs s')"

text \<open>
  A finite generator is the list of the items it yields and the exception that ends it,
  if one does. Since the transport's answers are fixed, running the generator ahead of
  its consumer computes the same items; \<open>for_gen\<close> is the consumer's \<open>for\<close> loop, in
  which the generator's exception arrives after the body has run on the items before it.
\<close>

type_synonym 'a gen = "'a list \<times> error option"

definition for_gen :: "('a \<Rightarrow> 's \<Rightarrow> 's outcome) \<Rightarrow> 'a gen \<Rightarrow> 's \<Rightarrow> 's outcome" where
  "for_gen body g s =
     (case for_each body (fst g) s of
        (s', Some e) \<Rightarrow> (s', Some e)
      | (s', None) \<Rightarrow> (s', snd g))"

subsection \<open>JobsResource\<close>

definition get_frame :: "cvat_server \<Rightarrow> int \<Rightarrow> int \<Rightarrow> error + FrameImage" where
  "get_frame srv job_id frame_id =
     (case srv_frame srv job_id frame_id of
        Inl e \<Rightarrow> Inl e
      | Inr content \<Rightarrow> Inr \<lparr>fi_frame_id = frame_id, fi_data = content\<rparr>)"

text \<open>Lines 400-420. \<open>yield_frames\<close> is the \<open>for\<close> loop over the frame range.\<close>

fun yield_frames :: "cvat_server \<Rightarrow> int \<Rightarrow> int list \<Rightarrow> int list \<Rightarrow> FrameImage gen" where
  "yield_frames srv job_id deleted_frames [] = ([], None)"
| "yield_frames srv job_id deleted_frames (frame_id # rest) =
     (if frame_id \<notin> set deleted_frames
      then (case get_frame srv job_id frame_id of
              Inl e \<Rightarrow> ([], Some e)
            | Inr frame_image \<Rightarrow>
                (case yield_frames srv job_id deleted_frames rest of
                   (images, err) \<Rightarrow> (frame_image # images, err)))
      else yield_frames srv job_id deleted_frames rest)"

definition iter_frames :: "cvat_server \<Rightarrow> int \<Rightarrow> FrameImage gen" where
  "iter_frames srv job_id =
     (case srv_job srv job_id of
        Inl e \<Rightarrow> ([], Some e)
      | Inr job \<Rightarrow>
          (case srv_data_meta srv job_id of
             Inl e \<Rightarrow> ([], Some e)
           | Inr meta \<Rightarrow>
               yield_frames srv job_id (dm_deleted_frames meta)
                 [jb_start_frame job .. jb_stop_frame job]))"

text \<open>
  \<open>Shape.model_dump()\<close>: the dict of a validated shape. The enum member is a \<open>str\<close>
  equal to its value, and nested attribute models are dumped to dicts.
\<close>

definition model_dump :: "Shape \<Rightarrow> shape_dict" where
  "model_dump s =
     \<lparr>sd_type = Some (ShapeType_value (sh_type s)),
      sd_points = Some (sh_points s),
      sd_attributes =
        Some (map (\<lambda>a. AttrDict (Some (av_spec_id a)) (Some (av_value a))) (sh_attributes s)),
      sd_label_id = Some (sh_label_id s)\<rparr>"

text \<open>
  Lines 441-462. \<open>frames_shapes\<close> is a dict in insertion order, kept as an association
  list with distinct keys; \<open>sorted(frames_shapes.items())\<close> orders it by frame id.
  In \<open>convert_shapes\<close> the \<open>except Exception: continue\<close> drops the shape that raised.
\<close>

definition group_shape ::
  "(int \<times> shape_dict list) list \<Rightarrow> Shape \<Rightarrow> (int \<times> shape_dict list) list" where
  "group_shape frames_shapes shape =
     (let frame_id = sh_frame shape
      in case map_of frames_shapes frame_id of
           None \<Rightarrow> frames_shapes @ [(frame_id, [model_dump shape])]
         | Some shapes \<Rightarrow>
             map (\<lambda>(k, v). if k = frame_id then (k, v @ [model_dump shape]) else (k, v))
               frames_shapes)"

fun convert_shapes :: "shape_dict list \<Rightarrow> CVATLabel list \<Rightarrow> Label list" where
  "convert_shapes [] cvat_labels = []"
| "convert_shapes (shape_dict # rest) cvat_labels =
     (case shape_to_label (ShapeDict shape_dict) cvat_labels 1 of
        Inl e \<Rightarrow> convert_shapes rest cvat_labels
      | Inr label \<Rightarrow> label # convert_shapes rest cvat_labels)"

definition get_annotations ::
  "cvat_server \<Rightarrow> int \<Rightarrow> CVATLabel list option \<Rightarrow> error + FrameLabels list" where
  "get_annotations srv job_id cvat_labels_opt =
     (case srv_annotations srv job_id of
        Inl e \<Rightarrow> Inl e
      | Inr annotations \<Rightarrow>
          (case (case cvat_labels_opt of
                   None \<Rightarrow> srv_job_labels srv job_id
                 | Some ls \<Rightarrow> Inr ls) of
             Inl e \<Rightarrow> Inl e
           | Inr cvat_labels \<Rightarrow>
               (let frames_shapes = foldl group_shape [] (an_shapes annotations)
                in Inr (map (\<lambda>(frame_id, shapes).
                              \<lparr>fl_frame_id = frame_id, fl_job_id = job_id,
                               fl_labels = convert_shapes shapes cvat_labels\<rparr>)
                         (sort_key fst frames_shapes)))))"

text \<open>
  Lines 499-531. \<open>iter_jobs_with_annotations\<close> is a generator whose page loop has no
  bound, so it is modelled together with the \<open>for\<close> loop that consumes it: \<open>body\<close> is
  the consumer's loop body, run on each yielded pair before the generator goes on.
  The result is \<open>None\<close> when the server never returns a last page.
\<close>

definition yield_job ::
  "cvat_server \<Rightarrow> CVATLabel list \<Rightarrow> (JobSummary \<times> FrameLabels list \<Rightarrow> 's \<Rightarrow> 's outcome)
     \<Rightarrow> JobSummary \<Rightarrow> 's \<Rightarrow> 's outcome" where
  "yield_job srv cvat_labels body job_summary s =
     (case get_annotations srv (js_id job_summary) (Some cvat_labels) of
        Inl e \<Rightarrow> (s, Some e)
      | Inr annotations \<Rightarrow> body (job_summary, annotations) s)"

partial_function (option) jobs_pages ::
  "cvat_server \<Rightarrow> int \<Rightarrow> int \<Rightarrow> CVATLabel list
     \<Rightarrow> (JobSummary \<times> FrameLabels list \<Rightarrow> 's \<Rightarrow> 's outcome)
     \<Rightarrow> int \<Rightarrow> 's \<Rightarrow> 's outcome option" where
  "jobs_pages srv task_id page_size cvat_labels body page s =
     (case srv_list_jobs srv task_id page page_size of
        Inl e \<Rightarrow> Some (s, Some e)
      | Inr jobs_response \<Rightarrow>
          (case for_each (yield_job srv cvat_labels body) (pr_results jobs_response) s of
             (s', Some e) \<Rightarrow> Some (s', Some e)
           | (s', None) \<Rightarrow>
               if pr_next jobs_response = None then Some (s', None)
               else jobs_pages srv task_id page_size cvat_labels body (page + 1) s'))"

declare jobs_pages.simps [code]

definition iter_jobs_with_annotations ::
  "cvat_server \<Rightarrow> int \<Rightarrow> int
     \<Rightarrow> (JobSummary \<times> FrameLabels list \<Rightarrow> 's \<Rightarrow> 's outcome) \<Rightarrow> 's \<Rightarrow> 's outcome option" where
  "iter_jobs_with_annotations srv task_id page_size body s =
     (case srv_task_labels srv task_id of
        Inl e \<Rightarrow> Some (s, Some e)
      | Inr cvat_labels \<Rightarrow> jobs_pages srv task_id page_size cvat_labels body 1 s)"

section \<open>Evaluation service client (client.py, models)\<close>

subsection \<open>Cursor pagination (models/common.py, _pagination.py)\<close>

record 'a CursorPage =
  cp_items :: "'a list"
  cp_total :: "int option"
  cp_size :: "int option"
  cp_cursor :: "string option"
  cp_next_page :: "string option"

definition has_next :: "'a CursorPage \<Rightarrow> bool" where
  "has_next page \<longleftrightarrow> cp_cursor page \<noteq> None \<or> cp_next_page page \<noteq> None"

text \<open>
  \<open>page.cursor or page.next_page\<close>: Python's \<open>or\<close> returns its first operand when it
  is truthy, and \<open>None\<close> and the empty string are both falsy.
\<close>

definition cursor_or_next_page :: "'a CursorPage \<Rightarrow> string option" where
  "cursor_or_next_page page =
     (case cp_cursor page of
        None \<Rightarrow> cp_next_page page
      | Some c \<Rightarrow> if c = [] then cp_next_page page else Some c)"

text \<open>
  \<open>paginate\<close> is a generator with a \<open>while True\<close> loop: the result is the list of the
  items it yields and the exception of \<open>fetch_page\<close> that ends it, if any, or \<open>None\<close>
  when the loop never ends. \<open>fetch_page\<close> has the keyword arguments applied already.
\<close>

partial_function (option) paginate_from ::
  "(string option \<Rightarrow> error + 'a CursorPage) \<Rightarrow> string option \<Rightarrow> 'a gen option" where
  "paginate_from fetch_page cursor =
     (case fetch_page cursor of
        Inl e \<Rightarrow> Some ([], Some e)
      | Inr page \<Rightarrow>
          if \<not> has_next page then Some (cp_items page, None)
          else Option.bind (paginate_from fetch_page (cursor_or_next_page page))
                 (\<lambda>(items, err). Some (cp_items page @ items, err)))"

declare paginate_from.simps [code]

definition paginate :: "(string option \<Rightarrow> error + 'a CursorPage) \<Rightarrow> 'a gen option" where
  "paginate fetch_page = paginate_from fetch_page None"

subsection \<open>Request models (models/evaluations.py)\<close>

datatype PredictionSource = SERVER_AGENT | CLIENT_SDK

record EvaluationCreate =
  ec_agent_id :: "string option"
  ec_dataset_id :: int
  ec_agent_name :: "string option"
  ec_agent_version :: "string option"
  ec_prediction_source :: PredictionSource
  ec_total_frames :: "int option"

record FrameData =
  fd_job_id :: int
  fd_frame_id :: int
  fd_ground_truth :: "Label list"
  fd_predictions :: "Label list option"
  fd_image_width :: "int option"
  fd_image_height :: "int option"

record EvaluationRead =
  er_id :: string
  er_total_frames :: "int option"
  er_received_frames :: int

text \<open>
  The constructors validate their fields: \<open>dataset_id\<close> and \<open>total_frames\<close> are
  \<open>ge=0\<close>, \<open>agent_name\<close> has \<open>max_length=256\<close> and \<open>agent_version\<close>
  \<open>max_length=40\<close>; the ids and the image sizes of a frame record are \<open>ge=0\<close>.
\<close>

definition max_length_ok :: "nat \<Rightarrow> string option \<Rightarrow> bool" where
  "max_length_ok n v = (case v of None \<Rightarrow> True | Some s \<Rightarrow> length s \<le> n)"

definition new_EvaluationCreate ::
  "string option \<Rightarrow> int \<Rightarrow> string option \<Rightarrow> string option \<Rightarrow> PredictionSource \<Rightarrow> int
     \<Rightarrow> error + EvaluationCreate" where
  "new_EvaluationCreate agent_id dataset_id agent_name agent_version prediction_source total_frames =
     (if 0 \<le> dataset_id \<and> max_length_ok 256 agent_name \<and> max_length_ok 40 agent_version
         \<and> 0 \<le> total_frames
      then Inr \<lparr>ec_agent_id = agent_id, ec_dataset_id = dataset_id, ec_agent_name = agent_name,
                ec_agent_version = agent_version, ec_prediction_source = prediction_source,
                ec_total_frames = Some total_frames\<rparr>
      else Inl ValidationError)"

definition new_FrameData ::
  "int \<Rightarrow> int \<Rightarrow> Label list \<Rightarrow> Label list \<Rightarrow> int \<Rightarrow> int \<Rightarrow> error + FrameData" where
  "new_FrameData job_id frame_id ground_truth predictions image_width image_height =
     (if 0 \<le> job_id \<and> 0 \<le> frame_id \<and> 0 \<le> image_width \<and> 0 \<le> image_height
      then Inr \<lparr>fd_job_id = job_id, fd_frame_id = frame_id, fd_ground_truth = ground_truth,
                fd_predictions = Some predictions, fd_image_width = Some image_width,
                fd_image_height = Some image_height\<rparr>
      else Inl ValidationError)"

subsection \<open>The transport and the world\<close>

text \<open>
  The evaluation-service transport, as the annotation-source transport above: the answer
  to each request, or the error raised.
\<close>

record dataup_server =
  ds_create :: "EvaluationCreate \<Rightarrow> error + string"
  ds_ingest_batch :: "string \<Rightarrow> FrameData list \<Rightarrow> error + unit"
  ds_finalize :: "string \<Rightarrow> error + unit"
  ds_get :: "string \<Rightarrow> error + EvaluationRead"

datatype dataup_call =
    Create EvaluationCreate
  | IngestBatch string "FrameData list"
  | Finalize string
  | Get string

text \<open>
  The part of the world a run can change: whether each of the two connections has been
  closed, the calls issued to the evaluation service (in order, logged when issued), and
  the progress reports.
\<close>

record world =
  w_cvat_closed :: bool
  w_dataup_closed :: bool
  w_calls :: "dataup_call list"
  w_progress :: "(int \<times> int) list"

text \<open>\<open>CVATClient.close\<close> (cvat/client.py 635-637) and \<open>DataUpClient.close\<close> (client.py 327-329).\<close>

definition CVATClient_close :: "world \<Rightarrow> world" where
  "CVATClient_close w = w\<lparr>w_cvat_closed := True\<rparr>"

definition DataUpClient_close :: "world \<Rightarrow> world" where
  "DataUpClient_close w = w\<lparr>w_dataup_closed := True\<rparr>"

section \<open>Evaluation runner (evaluation/runner.py)\<close>

text \<open>
  What the runner is composed of: the two transports, the image decoder
  (\<open>Image.open\<close>, giving the image's width and height) and the inference provider's
  \<open>predict\<close>.
\<close>

record pil_image =
  img_width :: int
  img_height :: int
  img_bytes :: "nat list"

record runner =
  rn_dataup :: dataup_server
  rn_cvat :: cvat_server
  rn_image_open :: "nat list \<Rightarrow> error + pil_image"
  rn_predict :: "pil_image \<Rightarrow> rat \<Rightarrow> rat \<Rightarrow> error + Label list"

record run_args =
  ra_task_id :: int
  ra_agent_id :: "string option"
  ra_agent_name :: "string option"
  ra_agent_version :: "string option"
  ra_job_ids :: "int list option"
  ra_conf :: rat
  ra_iou :: rat
  ra_batch_size :: int
  ra_progress_callback :: "(int \<Rightarrow> int \<Rightarrow> error option) option"

text \<open>The job filter of lines 115 and 147.\<close>

definition skipped :: "int set option \<Rightarrow> int \<Rightarrow> bool" where
  "skipped jobs_to_process_ids job_id =
     (case jobs_to_process_ids of None \<Rightarrow> False | Some ids \<Rightarrow> job_id \<notin> ids)"

text \<open>Lines 114-120: the body of the first pass; the state is \<open>total_frames\<close>.\<close>

definition count_job ::
  "cvat_server \<Rightarrow> int set option \<Rightarrow> JobSummary \<times> FrameLabels list \<Rightarrow> int \<Rightarrow> int outcome" where
  "count_job srv jobs_to_process_ids yielded total_frames =
     (let job_summary = fst yielded
      in if skipped jobs_to_process_ids (js_id job_summary) then (total_frames, None)
         else (case srv_job srv (js_id job_summary) of
                 Inl e \<Rightarrow> (total_frames, Some e)
               | Inr job \<Rightarrow>
                   (case srv_data_meta srv (js_id job_summary) of
                      Inl e \<Rightarrow> (total_frames, Some e)
                    | Inr meta \<Rightarrow>
                        (let frame_count = jb_stop_frame job - jb_start_frame job + 1
                                             - int (length (dm_deleted_frames meta))
                         in (total_frames + frame_count, None)))))"

text \<open>The state of the second pass.\<close>

record run_state =
  processed_frames :: int
  current_batch :: "FrameData list"
  rs_world :: world

definition issue :: "dataup_call \<Rightarrow> run_state \<Rightarrow> run_state" where
  "issue c st = st\<lparr>rs_world := (rs_world st)\<lparr>w_calls := w_calls (rs_world st) @ [c]\<rparr>\<rparr>"

definition report :: "int \<Rightarrow> int \<Rightarrow> run_state \<Rightarrow> run_state" where
  "report current total_frames st =
     st\<lparr>rs_world :=
          (rs_world st)\<lparr>w_progress := w_progress (rs_world st) @ [(current, total_frames)]\<rparr>\<rparr>"

text \<open>Lines 183-188: submit the batch when it is full.\<close>

definition submit_when_full :: "runner \<Rightarrow> run_args \<Rightarrow> string \<Rightarrow> run_state \<Rightarrow> run_state outcome" where
  "submit_when_full r args evaluation_id st =
     (if int (length (current_batch st)) \<ge> ra_batch_size args
      then (let st' = issue (IngestBatch evaluation_id (current_batch st)) st
            in case ds_ingest_batch (rn_dataup r) evaluation_id (current_batch st) of
                 Inl e \<Rightarrow> (st', Some e)
               | Inr u \<Rightarrow> (st'\<lparr>current_batch := []\<rparr>, None))
      else (st, None))"

text \<open>Lines 178-180: count the frame and report progress.\<close>

definition report_progress :: "run_args \<Rightarrow> int \<Rightarrow> run_state \<Rightarrow> run_state outcome" where
  "report_progress args total_frames st =
     (let st' = st\<lparr>processed_frames := processed_frames st + 1\<rparr>
      in case ra_progress_callback args of
           None \<Rightarrow> (st', None)
         | Some progress_callback \<Rightarrow>
             (report (processed_frames st') total_frames st',
              progress_callback (processed_frames st') total_frames))"

text \<open>Lines 157-188: the body of the loop over the frames of a job.\<close>

definition process_frame ::
  "runner \<Rightarrow> run_args \<Rightarrow> string \<Rightarrow> int \<Rightarrow> int \<Rightarrow> (int \<rightharpoonup> Label list)
     \<Rightarrow> FrameImage \<Rightarrow> run_state \<Rightarrow> run_state outcome" where
  "process_frame r args evaluation_id total_frames job_id frame_labels_lookup frame_image st =
     (let frame_id = fi_frame_id frame_image
      in case rn_image_open r (fi_data frame_image) of
           Inl e \<Rightarrow> (st, Some e)
         | Inr pil_image \<Rightarrow>
             (case rn_predict r pil_image (ra_conf args) (ra_iou args) of
                Inl e \<Rightarrow> (st, Some e)
              | Inr predictions \<Rightarrow>
                  (let ground_truth =
                         (case frame_labels_lookup frame_id of None \<Rightarrow> [] | Some ls \<Rightarrow> ls)
                   in case new_FrameData job_id frame_id ground_truth predictions
                             (img_width pil_image) (img_height pil_image) of
                        Inl e \<Rightarrow> (st, Some e)
                      | Inr frame_data \<Rightarrow>
                          (case report_progress args total_frames
                                  (st\<lparr>current_batch := current_batch st @ [frame_data]\<rparr>) of
                             (st', Some e) \<Rightarrow> (st', Some e)
                           | (st', None) \<Rightarrow> submit_when_full r args evaluation_id st'))))"

text \<open>Lines 144-188: the body of the loop over the jobs in the second pass.\<close>

definition process_job ::
  "runner \<Rightarrow> run_args \<Rightarrow> string \<Rightarrow> int \<Rightarrow> int set option
     \<Rightarrow> JobSummary \<times> FrameLabels list \<Rightarrow> run_state \<Rightarrow> run_state outcome" where
  "process_job r args evaluation_id total_frames jobs_to_process_ids yielded st =
     (let job_id = js_id (fst yielded)
      in if skipped jobs_to_process_ids job_id then (st, None)
         else (let frame_labels_lookup =
                     fold (\<lambda>frame_labels m. m(fl_frame_id frame_labels \<mapsto> fl_labels frame_labels))
                       (snd yielded) Map.empty
               in for_gen
                    (process_frame r args evaluation_id total_frames job_id frame_labels_lookup)
                    (iter_frames (rn_cvat r) job_id) st))"

text \<open>Lines 190-201: the remaining frames, finalize, and the evaluation read back.\<close>

definition finish :: "runner \<Rightarrow> string \<Rightarrow> run_state \<Rightarrow> world \<times> (error + EvaluationRead)" where
  "finish r evaluation_id st =
     (case (if current_batch st \<noteq> []
            then (issue (IngestBatch evaluation_id (current_batch st)) st,
                  case ds_ingest_batch (rn_dataup r) evaluation_id (current_batch st) of
                    Inl e \<Rightarrow> Some e | Inr u \<Rightarrow> None)
            else (st, None)) of
        (st1, Some e) \<Rightarrow> (rs_world st1, Inl e)
      | (st1, None) \<Rightarrow>
          (let st2 = issue (Finalize evaluation_id) st1
           in case ds_finalize (rn_dataup r) evaluation_id of
                Inl e \<Rightarrow> (rs_world st2, Inl e)
              | Inr u \<Rightarrow>
                  (let st3 = issue (Get evaluation_id) st2
                   in (rs_world st3, ds_get (rn_dataup r) evaluation_id))))"

text \<open>
  Lines 110-206. The result is the world after the call together with the evaluation
  read back, or the exception that left the call; it is \<open>None\<close> when the job listing of
  one of the passes never ends. The \<open>except Exception: raise\<close> of lines 203-206 passes
  the exception on unchanged.
\<close>

definition run_and_submit ::
  "runner \<Rightarrow> run_args \<Rightarrow> world \<Rightarrow> (world \<times> (error + EvaluationRead)) option" where
  "run_and_submit r args w =
     (let jobs_to_process_ids = map_option set (ra_job_ids args)
      in case iter_jobs_with_annotations (rn_cvat r) (ra_task_id args) 100
                (count_job (rn_cvat r) jobs_to_process_ids) 0 of
           None \<Rightarrow> None
         | Some (total_frames, Some e) \<Rightarrow> Some (w, Inl e)
         | Some (total_frames, None) \<Rightarrow>
             (case new_EvaluationCreate (ra_agent_id args) (ra_task_id args) (ra_agent_name args)
                     (ra_agent_version args) CLIENT_SDK total_frames of
                Inl e \<Rightarrow> Some (w, Inl e)
              | Inr evaluation \<Rightarrow>
                  (let w1 = w\<lparr>w_calls := w_calls w @ [Create evaluation]\<rparr>
                   in case ds_create (rn_dataup r) evaluation of
                        Inl e \<Rightarrow> Some (w1, Inl e)
                      | Inr evaluation_id \<Rightarrow>
                          (case iter_jobs_with_annotations (rn_cvat r) (ra_task_id args) 100
                                  (process_job r args evaluation_id total_frames jobs_to_process_ids)
                                  \<lparr>processed_frames = 0, current_batch = [], rs_world = w1\<rparr> of
                             None \<Rightarrow> None
                           | Some (st, Some e) \<Rightarrow> Some (rs_world st, Inl e)
                           | Some (st, None) \<Rightarrow> Some (finish r evaluation_id st)))))"

text \<open>The specification's scenario: two jobs with the frames 0..2 and 3..4, frame 1 deleted.\<close>

definition scenario_cvat :: cvat_server where
  "scenario_cvat =
     \<lparr>srv_task_labels = (\<lambda>task_id. Inr [\<lparr>cl_id = 7, cl_name = ''car'', cl_attributes = []\<rparr>]),
      srv_job_labels = (\<lambda>job_id. Inr [\<lparr>cl_id = 7, cl_name = ''car'', cl_attributes = []\<rparr>]),
      srv_list_jobs = (\<lambda>task_id page page_size.
         if page = 1
         then Inr \<lparr>pr_count = 2, pr_next = Some ''page2'', pr_previous = None,
                   pr_results = [\<lparr>js_id = 11, js_start_frame = 0, js_stop_frame = 2\<rparr>]\<rparr>
         else Inr \<lparr>pr_count = 2, pr_next = None, pr_previous = Some ''page1'',
                   pr_results = [\<lparr>js_id = 12, js_start_frame = 3, js_stop_frame = 4\<rparr>]\<rparr>),
      srv_job = (\<lambda>job_id.
         if job_id = 11 then Inr \<lparr>jb_id = 11, jb_start_frame = 0, jb_stop_frame = 2\<rparr>
         else Inr \<lparr>jb_id = job_id, jb_start_frame = 3, jb_stop_frame = 4\<rparr>),
      srv_data_meta = (\<lambda>job_id.
         if job_id = 11
         then Inr \<lparr>dm_start_frame = 0, dm_stop_frame = 2, dm_deleted_frames = [1]\<rparr>
         else Inr \<lparr>dm_start_frame = 3, dm_stop_frame = 4, dm_deleted_frames = []\<rparr>),
      srv_annotations = (\<lambda>job_id.
         if job_id = 11
         then Inr \<lparr>an_shapes =
                [\<lparr>sh_type = RECTANGLE, sh_frame = 2, sh_label_id = 7,
                  sh_points = [10, 10, 50, 40], sh_attributes = []\<rparr>,
                 \<lparr>sh_type = POINTS, sh_frame = 0, sh_label_id = 7,
                  sh_points = [1, 2, 3], sh_attributes = []\<rparr>,
                 \<lparr>sh_type = ELLIPSE, sh_frame = 2, sh_label_id = 8,
                  sh_points = [100, 100, 20, 10], sh_attributes = []\<rparr>]\<rparr>
         else Inr \<lparr>an_shapes = []\<rparr>),
      srv_frame = (\<lambda>job_id frame_id. Inr [nat frame_id])\<rparr>"

definition scenario_dataup :: dataup_server where
  "scenario_dataup =
     \<lparr>ds_create = (\<lambda>evaluation. Inr ''ev1''),
      ds_ingest_batch = (\<lambda>evaluation_id frames. Inr ()),
      ds_finalize = (\<lambda>evaluation_id. Inr ()),
      ds_get = (\<lambda>evaluation_id.
         Inr \<lparr>er_id = evaluation_id, er_total_frames = Some 4, er_received_frames = 4\<rparr>)\<rparr>"

definition scenario_runner :: runner where
  "scenario_runner =
     \<lparr>rn_dataup = scenario_dataup, rn_cvat = scenario_cvat,
      rn_image_open = (\<lambda>data. Inr \<lparr>img_width = 640, img_height = 480, img_bytes = data\<rparr>),
      rn_predict = (\<lambda>image conf iou. Inr [])\<rparr>"

definition scenario_args :: run_args where
  "scenario_args =
     \<lparr>ra_task_id = 1, ra_agent_id = None, ra_agent_name = Some ''my-model'',
      ra_agent_version = Some ''1.0.0'', ra_job_ids = None, ra_conf = 0, ra_iou = 1/2,
      ra_batch_size = 2, ra_progress_callback = None\<rparr>"

definition fresh_world :: world where
  "fresh_world = \<lparr>w_cvat_closed = False, w_dataup_closed = False, w_calls = [], w_progress = []\<rparr>"

section \<open>Notions used in the statements and proofs\<close>

text \<open>
  The jobs of a task: the job summaries that the page loop of
  \<open>iter_jobs_with_annotations\<close> goes through, from \<open>page\<close> on, when every page
  request succeeds and a last page comes.
\<close>

partial_function (option) task_jobs ::
  "cvat_server \<Rightarrow> int \<Rightarrow> int \<Rightarrow> int \<Rightarrow> JobSummary list option" where
  "task_jobs srv task_id page_size page =
     (case srv_list_jobs srv task_id page page_size of
        Inl e \<Rightarrow> None
      | Inr jobs_response \<Rightarrow>
          if pr_next jobs_response = None then Some (pr_results jobs_response)
          else Option.bind (task_jobs srv task_id page_size (page + 1))
                 (\<lambda>rest. Some (pr_results jobs_response @ rest)))"

declare task_jobs.simps [code]

text \<open>
  What one job adds to \<open>total_frames\<close> in the first pass, and the number of frames
  \<open>iter_frames\<close> yields for it in the second pass (nothing for a job outside the filter).
\<close>

definition frames_counted :: "cvat_server \<Rightarrow> int set option \<Rightarrow> JobSummary \<Rightarrow> int" where
  "frames_counted srv jobs_to_process_ids job_summary =
     (if skipped jobs_to_process_ids (js_id job_summary) then 0
      else case srv_job srv (js_id job_summary) of
             Inl e \<Rightarrow> 0
           | Inr job \<Rightarrow>
               (case srv_data_meta srv (js_id job_summary) of
                  Inl e \<Rightarrow> 0
                | Inr meta \<Rightarrow> jb_stop_frame job - jb_start_frame job + 1
                                - int (length (dm_deleted_frames meta))))"

definition frames_yielded :: "cvat_server \<Rightarrow> int set option \<Rightarrow> JobSummary \<Rightarrow> int" where
  "frames_yielded srv jobs_to_process_ids job_summary =
     (if skipped jobs_to_process_ids (js_id job_summary) then 0
      else int (length (fst (iter_frames srv (js_id job_summary)))))"

text \<open>
  The invariant of the second pass after \<open>k\<close> frames: the calls issued since \<open>base\<close>
  are ingestion calls, their frames and the buffered ones are \<open>k\<close> together, and for a
  batch size of at least one every call carried a full batch and the buffer is not full.
\<close>

definition batched :: "run_args \<Rightarrow> string \<Rightarrow> dataup_call list \<Rightarrow> int \<Rightarrow> run_state \<Rightarrow> bool" where
  "batched args evaluation_id base k st \<longleftrightarrow>
     (\<exists>bs. w_calls (rs_world st) = base @ map (IngestBatch evaluation_id) bs
         \<and> int (length (concat bs)) + int (length (current_batch st)) = k
         \<and> (1 \<le> ra_batch_size args \<longrightarrow>
               (\<forall>b \<in> set bs. int (length b) = ra_batch_size args)
             \<and> int (length (current_batch st)) < ra_batch_size args))"

text \<open>The state's connections are closed exactly when they are in the world \<open>w\<close>.\<close>

definition connections_as :: "world \<Rightarrow> run_state \<Rightarrow> bool" where
  "connections_as w st \<longleftrightarrow>
     w_cvat_closed (rs_world st) = w_cvat_closed w
   \<and> w_dataup_closed (rs_world st) = w_dataup_closed w"

text \<open>
  The dicts collected for a frame in \<open>frames_shapes\<close>, and the labels of the shapes
  that \<open>shape_to_label\<close> converts, in order.
\<close>

definition grouped :: "(int \<times> shape_dict list) list \<Rightarrow> int \<Rightarrow> shape_dict list" where
  "grouped frames_shapes frame_id =
     (case map_of frames_shapes frame_id of None \<Rightarrow> [] | Some shapes \<Rightarrow> shapes)"

definition converted :: "CVATLabel list \<Rightarrow> Shape list \<Rightarrow> Label list" where
  "converted cvat_labels shapes =
     concat (map (\<lambda>s. case shape_to_label (ShapeDict (model_dump s)) cvat_labels 1 of
                         Inl e \<Rightarrow> [] | Inr label \<Rightarrow> [label]) shapes)"

text \<open>
  Variants of the scenario: a provider whose \<open>predict\<close> raises, and a server whose job
  11 has \<open>start_frame = 3\<close> and \<open>stop_frame = 1\<close> while job 12 has the frames 0..1, no
  frame deleted.
\<close>

definition scenario_failing_runner :: runner where
  "scenario_failing_runner =
     scenario_runner\<lparr>rn_predict := (\<lambda>image conf iou. Inl InferenceError)\<rparr>"

definition scenario_reversed_cvat :: cvat_server where
  "scenario_reversed_cvat =
     scenario_cvat
       \<lparr>srv_job := (\<lambda>job_id.
          if job_id = 11 then Inr \<lparr>jb_id = 11, jb_start_frame = 3, jb_stop_frame = 1\<rparr>
          else Inr \<lparr>jb_id = job_id, jb_start_frame = 0, jb_stop_frame = 1\<rparr>),
        srv_data_meta := (\<lambda>job_id.
          Inr \<lparr>dm_start_frame = 0, dm_stop_frame = 1, dm_deleted_frames = []\<rparr>),
        srv_annotations := (\<lambda>job_id. Inr \<lparr>an_shapes = []\<rparr>)\<rparr>"

definition scenario_reversed_runner :: runner where
  "scenario_reversed_runner = scenario_runner\<lparr>rn_cvat := scenario_reversed_cvat\<rparr>"

text \<open>
  A page server whose first page carries the empty string as its cursor, and whose page
  for any other cursor is the last one.
\<close>

definition empty_cursor_fetch :: "string option \<Rightarrow> error + nat CursorPage" where
  "empty_cursor_fetch cursor =
     (if cursor = None
      then Inr \<lparr>cp_items = [1], cp_total = None, cp_size = None,
                cp_cursor = Some [], cp_next_page = None\<rparr>
      else Inr \<lparr>cp_items = [2], cp_total = None, cp_size = None,
                cp_cursor = None, cp_next_page = None\<rparr>)"

text \<open>
  \<open>pages\<close> are the pages that \<open>paginate\<close> fetches from \<open>cursor\<close> on: each but the
  last has a continuation and is followed by the page fetched with it, the last has none.
\<close>

fun fetched_pages ::
  "(string option \<Rightarrow> error + 'a CursorPage) \<Rightarrow> string option \<Rightarrow> 'a CursorPage list \<Rightarrow> bool" where
  "fetched_pages fetch_page cursor [] = False"
| "fetched_pages fetch_page cursor [page] =
     (fetch_page cursor = Inr page \<and> \<not> has_next page)"
| "fetched_pages fetch_page cursor (page # next_page # pages) =
     (fetch_page cursor = Inr page \<and> has_next page
      \<and> fetched_pages fetch_page (cursor_or_next_page page) (next_page # pages))"

section \<open>Properties of the shape normalizer\<close>

subsection \<open>Auxiliary facts\<close>

lemma py_int_of_int: "py_int (of_int n) = n"
  by (simp add: py_int_def)


lemma py_int_pos: "1 \<le> q \<Longrightarrow> 1 \<le> py_int q"
  by (simp add: py_int_def le_floor_iff)

lemma py_min_le_py_max: "py_min xs \<le> py_max xs"
proof -
  have a: "fold min ys a \<le> a" for ys and a :: rat
  proof (induction ys arbitrary: a)
    case (Cons y ys)
    have "fold min ys (min y a) \<le> min y a" by (rule Cons.IH)
    then show ?case by simp
  qed simp
  have b: "a \<le> fold max ys a" for ys and a :: rat
  proof (induction ys arbitrary: a)
    case (Cons y ys)
    have "max y a \<le> fold max ys (max y a)" by (rule Cons.IH)
    then show ?case by simp
  qed simp
  show ?thesis unfolding py_min_def py_max_def
    using a[of "tl xs" "hd xs"] b[of "hd xs" "tl xs"] by linarith
qed













lemma unpack_shape_Inr_iff:
  "(\<exists>r. unpack_shape shape = Inr r) \<longleftrightarrow>
     (case shape of
        ShapeObj s \<Rightarrow> True
      | ShapeDict d \<Rightarrow>
          (case sd_type d of
             None \<Rightarrow> True
           | Some v \<Rightarrow> v \<in> {''rectangle'', ''polygon'', ''polyline'', ''points'',
                             ''ellipse'', ''cuboid'', ''skeleton'', ''mask''}))"
  by (simp add: unpack_shape_def ShapeType_of_def split: shape_input.splits option.splits)


subsection \<open>Rectangles\<close>




subsection \<open>Ellipses\<close>




subsection \<open>Zero-sized boxes\<close>




subsection \<open>Totality\<close>




text \<open>
  The other way to fail: the comprehensions of the polygon, polyline and points branches
  read \<open>points[i + 1]\<close> without the bound check of the last branch.
\<close>

lemma shape_to_label_odd_points:
  "shape_to_label (ShapeObj \<lparr>sh_type = POINTS, sh_frame = 0, sh_label_id = 1,
       sh_points = [1, 2, 3], sh_attributes = []\<rparr>) [] 1 = Inl IndexError"
  by code_simp

section \<open>Properties of the annotation source adapter\<close>

subsection \<open>Frame iteration\<close>

lemma yield_frames_ids:
  "\<exists>n. map fi_frame_id (fst (yield_frames srv job_id deleted frames))
         = take n (filter (\<lambda>f. f \<notin> set deleted) frames)
       \<and> (snd (yield_frames srv job_id deleted frames) = None
            \<longrightarrow> n = length (filter (\<lambda>f. f \<notin> set deleted) frames))"
proof (induction frames)
  case Nil
  show ?case by simp
next
  case (Cons f frames)
  then obtain n where n:
    "map fi_frame_id (fst (yield_frames srv job_id deleted frames))
       = take n (filter (\<lambda>f. f \<notin> set deleted) frames)"
    "snd (yield_frames srv job_id deleted frames) = None
       \<longrightarrow> n = length (filter (\<lambda>f. f \<notin> set deleted) frames)"
    by (elim exE conjE)
  show ?case
  proof (cases "f \<in> set deleted")
    case True
    with n show ?thesis by auto
  next
    case False
    show ?thesis
    proof (cases "srv_frame srv job_id f")
      case (Inl e)
      with False have "fst (yield_frames srv job_id deleted (f # frames)) = []"
        "snd (yield_frames srv job_id deleted (f # frames)) = Some e"
        by (simp_all add: get_frame_def)
      then show ?thesis by (intro exI[of _ 0]) simp
    next
      case (Inr content)
      with False n show ?thesis
        by (intro exI[of _ "Suc n"]) (auto simp: get_frame_def split: prod.splits)
    qed
  qed
qed

lemma iter_frames_yields:
  assumes "srv_job srv job_id = Inr job" and "srv_data_meta srv job_id = Inr meta"
  shows "sorted_wrt (<) (map fi_frame_id (fst (iter_frames srv job_id)))
       \<and> (\<forall>frame_image \<in> set (fst (iter_frames srv job_id)).
              fi_frame_id frame_image \<notin> set (dm_deleted_frames meta)
            \<and> jb_start_frame job \<le> fi_frame_id frame_image
            \<and> fi_frame_id frame_image \<le> jb_stop_frame job)
       \<and> (snd (iter_frames srv job_id) = None \<longrightarrow>
             map fi_frame_id (fst (iter_frames srv job_id))
               = filter (\<lambda>f. f \<notin> set (dm_deleted_frames meta))
                   [jb_start_frame job .. jb_stop_frame job])"
proof -
  let ?all = "filter (\<lambda>f. f \<notin> set (dm_deleted_frames meta)) [jb_start_frame job .. jb_stop_frame job]"
  have it: "iter_frames srv job_id =
      yield_frames srv job_id (dm_deleted_frames meta) [jb_start_frame job .. jb_stop_frame job]"
    using assms by (simp add: iter_frames_def)
  from yield_frames_ids[of srv job_id "dm_deleted_frames meta" "[jb_start_frame job .. jb_stop_frame job]"]
  obtain n where n: "map fi_frame_id (fst (iter_frames srv job_id)) = take n ?all"
    "snd (iter_frames srv job_id) = None \<longrightarrow> n = length ?all"
    unfolding it by (elim exE conjE)
  have "sorted_wrt (<) ?all" by (rule sorted_wrt_filter) simp
  then have asc: "sorted_wrt (<) (take n ?all)" by (rule sorted_wrt_take)
  have "fi_frame_id frame_image \<in> set ?all" if "frame_image \<in> set (fst (iter_frames srv job_id))"
    for frame_image
  proof -
    from that have "fi_frame_id frame_image \<in> set (map fi_frame_id (fst (iter_frames srv job_id)))"
      by simp
    then show ?thesis unfolding n(1) by (rule in_set_takeD)
  qed
  then show ?thesis using asc n by auto
qed

text \<open>
  C4. For every job whose record and data meta the server returns, the frames yielded
  by \<open>iter_frames\<close> have strictly ascending ids, none of them is in the job's
  \<open>deleted_frames\<close>, and each lies in the inclusive range from \<open>start_frame\<close> to
  \<open>stop_frame\<close>. (When one of the two requests fails, nothing is yielded.)
\<close>

theorem iter_frames_ascending_undeleted:
  assumes "srv_job srv job_id = Inr job" and "srv_data_meta srv job_id = Inr meta"
  shows "sorted_wrt (<) (map fi_frame_id (fst (iter_frames srv job_id)))
       \<and> (\<forall>frame_image \<in> set (fst (iter_frames srv job_id)).
              fi_frame_id frame_image \<notin> set (dm_deleted_frames meta)
            \<and> jb_start_frame job \<le> fi_frame_id frame_image
            \<and> fi_frame_id frame_image \<le> jb_stop_frame job)"
  using iter_frames_yields[OF assms] by blast

text \<open>Job 11 of the scenario: frames 0..2 with frame 1 deleted yield the ids 0 and 2.\<close>

theorem iter_frames_ascending_undeleted_witness:
  "srv_job scenario_cvat 11 = Inr \<lparr>jb_id = 11, jb_start_frame = 0, jb_stop_frame = 2\<rparr>
   \<and> srv_data_meta scenario_cvat 11
       = Inr \<lparr>dm_start_frame = 0, dm_stop_frame = 2, dm_deleted_frames = [1]\<rparr>
   \<and> map fi_frame_id (fst (iter_frames scenario_cvat 11)) = [0, 2]
   \<and> sorted_wrt (<) (map fi_frame_id (fst (iter_frames scenario_cvat 11)))"
proof -
  have j: "srv_job scenario_cvat 11 = Inr \<lparr>jb_id = 11, jb_start_frame = 0, jb_stop_frame = 2\<rparr>"
    by (simp add: scenario_cvat_def)
  have m: "srv_data_meta scenario_cvat 11
       = Inr \<lparr>dm_start_frame = 0, dm_stop_frame = 2, dm_deleted_frames = [1]\<rparr>"
    by (simp add: scenario_cvat_def)
  have i: "map fi_frame_id (fst (iter_frames scenario_cvat 11)) = [0, 2]"
    by code_simp
  from iter_frames_ascending_undeleted[OF j m]
  have "sorted_wrt (<) (map fi_frame_id (fst (iter_frames scenario_cvat 11)))" by blast
  with j m i show ?thesis by (intro conjI)
qed

lemma iter_frames_complete:
  assumes "snd (iter_frames srv job_id) = None"
  shows "\<exists>job meta. srv_job srv job_id = Inr job \<and> srv_data_meta srv job_id = Inr meta
           \<and> map fi_frame_id (fst (iter_frames srv job_id))
               = filter (\<lambda>f. f \<notin> set (dm_deleted_frames meta))
                   [jb_start_frame job .. jb_stop_frame job]"
proof -
  from assms obtain job where j: "srv_job srv job_id = Inr job"
    by (cases "srv_job srv job_id") (auto simp: iter_frames_def)
  from assms j obtain meta where m: "srv_data_meta srv job_id = Inr meta"
    by (cases "srv_data_meta srv job_id") (auto simp: iter_frames_def)
  from iter_frames_yields[OF j m] assms j m show ?thesis by blast
qed

subsection \<open>Annotations of a job\<close>

lemma map_of_map_upd:
  "map_of (map (\<lambda>(k, v). if k = a then (k, g v) else (k, v)) al) f
     = (if f = a then map_option g (map_of al f) else map_of al f)"
  by (induction al) auto

lemma keys_map_upd:
  "map fst (map (\<lambda>(k, v). if k = a then (k, g v) else (k, v)) al) = map fst al"
  by (induction al) auto

lemma group_shape_keys:
  "set (map fst (group_shape al s)) = insert (sh_frame s) (set (map fst al))"
proof (cases "map_of al (sh_frame s)")
  case None
  then show ?thesis by (simp add: group_shape_def)
next
  case (Some v)
  from map_of_SomeD[OF Some] have "sh_frame s \<in> fst ` set al" by force
  with Some show ?thesis
    by (auto simp add: group_shape_def Let_def keys_map_upd simp del: map_map)
qed

lemma group_shape_distinct:
  "distinct (map fst al) \<Longrightarrow> distinct (map fst (group_shape al s))"
proof (cases "map_of al (sh_frame s)")
  case None
  assume "distinct (map fst al)"
  moreover from None have "sh_frame s \<notin> fst ` set al" by (simp add: map_of_eq_None_iff)
  ultimately show ?thesis using None by (simp add: group_shape_def)
next
  case (Some v)
  assume "distinct (map fst al)"
  with Some show ?thesis
    by (simp add: group_shape_def Let_def keys_map_upd del: map_map)
qed

lemma group_shape_grouped:
  "grouped (group_shape al s) f
     = grouped al f @ (if sh_frame s = f then [model_dump s] else [])"
proof (cases "map_of al (sh_frame s)")
  case None
  then show ?thesis
    by (auto simp: grouped_def group_shape_def map_of_append split: option.splits)
next
  case (Some v)
  then show ?thesis
    by (auto simp: grouped_def group_shape_def map_of_map_upd split: option.splits)
qed

lemma foldl_group_shape:
  "distinct (map fst al) \<Longrightarrow>
     distinct (map fst (foldl group_shape al shapes))
   \<and> set (map fst (foldl group_shape al shapes)) = set (map fst al) \<union> sh_frame ` set shapes
   \<and> (\<forall>f. grouped (foldl group_shape al shapes) f
            = grouped al f @ map model_dump (filter (\<lambda>s. sh_frame s = f) shapes))"
proof (induction shapes arbitrary: al)
  case Nil
  then show ?case by simp
next
  case (Cons s shapes)
  from Cons.IH[OF group_shape_distinct[OF Cons.prems, of s]]
  show ?case by (auto simp: group_shape_keys group_shape_grouped simp del: set_map)
qed

lemma convert_shapes_model_dump:
  "convert_shapes (map model_dump shapes) cvat_labels = converted cvat_labels shapes"
  by (induction shapes) (auto simp: converted_def split: sum.splits)

lemma get_annotations_frames:
  assumes "srv_annotations srv job_id = Inr annotations"
    and "(case cvat_labels_opt of None \<Rightarrow> srv_job_labels srv job_id | Some ls \<Rightarrow> Inr ls)
           = Inr cvat_labels"
  shows "\<exists>frame_labels_list.
           get_annotations srv job_id cvat_labels_opt = Inr frame_labels_list
         \<and> sorted_wrt (<) (map fl_frame_id frame_labels_list)
         \<and> set (map fl_frame_id frame_labels_list) = sh_frame ` set (an_shapes annotations)
         \<and> (\<forall>frame_labels \<in> set frame_labels_list.
              fl_job_id frame_labels = job_id
            \<and> fl_labels frame_labels
                = converted cvat_labels
                    (filter (\<lambda>s. sh_frame s = fl_frame_id frame_labels) (an_shapes annotations)))"
proof -
  let ?al = "foldl group_shape [] (an_shapes annotations)"
  let ?mk = "\<lambda>(frame_id, shapes). \<lparr>fl_frame_id = frame_id, fl_job_id = job_id,
                               fl_labels = convert_shapes shapes cvat_labels\<rparr>"
  let ?fls = "map ?mk (sort_key fst ?al)"
  have res: "get_annotations srv job_id cvat_labels_opt = Inr ?fls"
    using assms by (simp add: get_annotations_def Let_def)
  from foldl_group_shape[of "[]" "an_shapes annotations"]
  have d: "distinct (map fst ?al)"
    and k: "set (map fst ?al) = sh_frame ` set (an_shapes annotations)"
    and g: "\<And>f. grouped ?al f = map model_dump (filter (\<lambda>s. sh_frame s = f) (an_shapes annotations))"
    by (simp_all add: grouped_def)
  have ids: "map fl_frame_id ?fls = map fst (sort_key fst ?al)"
    by (simp add: comp_def case_prod_beta)
  have "sorted (map fst (sort_key fst ?al))" by (rule sorted_sort_key)
  moreover have "distinct (map fst (sort_key fst ?al))"
    using d by (simp add: distinct_map)
  ultimately have asc: "sorted_wrt (<) (map fl_frame_id ?fls)"
    unfolding ids by (simp add: strict_sorted_iff)
  have keys: "set (map fl_frame_id ?fls) = sh_frame ` set (an_shapes annotations)"
    unfolding ids using k by simp
  have each: "fl_job_id fl = job_id \<and> fl_labels fl = converted cvat_labels
                    (filter (\<lambda>s. sh_frame s = fl_frame_id fl) (an_shapes annotations))"
    if "fl \<in> set ?fls" for fl
  proof -
    from that obtain f v where fv: "(f, v) \<in> set ?al" and fl: "fl = ?mk (f, v)"
      by auto
    from d fv have "map_of ?al f = Some v" by simp
    then have "v = grouped ?al f" by (simp add: grouped_def)
    then have "v = map model_dump (filter (\<lambda>s. sh_frame s = f) (an_shapes annotations))"
      by (simp only: g)
    then show ?thesis using fl by (simp add: convert_shapes_model_dump)
  qed
  show ?thesis using res asc keys each by blast
qed

text \<open>
  C7. For every job whose annotation request succeeds (and whose label request succeeds,
  when the labels are not passed in), \<open>get_annotations\<close> returns a list: it has one
  entry for each frame that has a shape, in ascending frame order, and the labels of an
  entry are those of the frame's shapes that \<open>shape_to_label\<close> converts, in their
  order. A shape whose conversion raises is left out, alone; it fails neither its frame
  nor the fetch.
\<close>

theorem unconvertible_shape_is_dropped:
  assumes "srv_annotations srv job_id = Inr annotations"
    and "(case cvat_labels_opt of None \<Rightarrow> srv_job_labels srv job_id | Some ls \<Rightarrow> Inr ls)
           = Inr cvat_labels"
  shows "\<exists>frame_labels_list.
           get_annotations srv job_id cvat_labels_opt = Inr frame_labels_list
         \<and> sorted_wrt (<) (map fl_frame_id frame_labels_list)
         \<and> set (map fl_frame_id frame_labels_list) = sh_frame ` set (an_shapes annotations)
         \<and> (\<forall>frame_labels \<in> set frame_labels_list.
              fl_job_id frame_labels = job_id
            \<and> fl_labels frame_labels
                = concat (map (\<lambda>s. case shape_to_label (ShapeDict (model_dump s)) cvat_labels 1 of
                                      Inl e \<Rightarrow> [] | Inr label \<Rightarrow> [label])
                    (filter (\<lambda>s. sh_frame s = fl_frame_id frame_labels)
                       (an_shapes annotations))))"
  using get_annotations_frames[OF assms] by (simp only: converted_def)

text \<open>
  Job 11 of the scenario: the points shape with three coordinates raises IndexError and
  is dropped; its frame 0 is returned without labels and frame 2 with both its labels.
\<close>

theorem unconvertible_shape_is_dropped_witness:
  "srv_annotations scenario_cvat 11
     = Inr \<lparr>an_shapes =
                [\<lparr>sh_type = RECTANGLE, sh_frame = 2, sh_label_id = 7,
                  sh_points = [10, 10, 50, 40], sh_attributes = []\<rparr>,
                 \<lparr>sh_type = POINTS, sh_frame = 0, sh_label_id = 7,
                  sh_points = [1, 2, 3], sh_attributes = []\<rparr>,
                 \<lparr>sh_type = ELLIPSE, sh_frame = 2, sh_label_id = 8,
                  sh_points = [100, 100, 20, 10], sh_attributes = []\<rparr>]\<rparr>
   \<and> shape_to_label (ShapeDict (model_dump \<lparr>sh_type = POINTS, sh_frame = 0, sh_label_id = 7,
                  sh_points = [1, 2, 3], sh_attributes = []\<rparr>))
         [\<lparr>cl_id = 7, cl_name = ''car'', cl_attributes = []\<rparr>] 1 = Inl IndexError
   \<and> (\<exists>frame_labels_list.
         get_annotations scenario_cvat 11 (Some [\<lparr>cl_id = 7, cl_name = ''car'', cl_attributes = []\<rparr>])
           = Inr frame_labels_list
       \<and> sorted_wrt (<) (map fl_frame_id frame_labels_list)
       \<and> set (map fl_frame_id frame_labels_list) = {0, 2}
       \<and> map (length \<circ> fl_labels) frame_labels_list = [0, 2])"
proof -
  let ?labels = "[\<lparr>cl_id = 7, cl_name = ''car'', cl_attributes = []\<rparr>]"
  have a: "srv_annotations scenario_cvat 11
     = Inr \<lparr>an_shapes =
                [\<lparr>sh_type = RECTANGLE, sh_frame = 2, sh_label_id = 7,
                  sh_points = [10, 10, 50, 40], sh_attributes = []\<rparr>,
                 \<lparr>sh_type = POINTS, sh_frame = 0, sh_label_id = 7,
                  sh_points = [1, 2, 3], sh_attributes = []\<rparr>,
                 \<lparr>sh_type = ELLIPSE, sh_frame = 2, sh_label_id = 8,
                  sh_points = [100, 100, 20, 10], sh_attributes = []\<rparr>]\<rparr>"
    by (simp add: scenario_cvat_def)
  have l: "(case Some ?labels of None \<Rightarrow> srv_job_labels scenario_cvat 11 | Some ls \<Rightarrow> Inr ls)
             = Inr ?labels" by simp
  have p: "shape_to_label (ShapeDict (model_dump \<lparr>sh_type = POINTS, sh_frame = 0, sh_label_id = 7,
                  sh_points = [1, 2, 3], sh_attributes = []\<rparr>)) ?labels 1 = Inl IndexError"
    by code_simp
  have v: "map (length \<circ> fl_labels)
             (projr (get_annotations scenario_cvat 11 (Some ?labels))) = [0, 2]"
    by code_simp
  from unconvertible_shape_is_dropped[OF a l] obtain fls where
    f: "get_annotations scenario_cvat 11 (Some ?labels) = Inr fls"
      "sorted_wrt (<) (map fl_frame_id fls)"
      "set (map fl_frame_id fls) = sh_frame ` set
                [\<lparr>sh_type = RECTANGLE, sh_frame = 2, sh_label_id = 7,
                  sh_points = [10, 10, 50, 40], sh_attributes = []\<rparr>,
                 \<lparr>sh_type = POINTS, sh_frame = 0, sh_label_id = 7,
                  sh_points = [1, 2, 3], sh_attributes = []\<rparr>,
                 \<lparr>sh_type = ELLIPSE, sh_frame = 2, sh_label_id = 8,
                  sh_points = [100, 100, 20, 10], sh_attributes = []\<rparr>]"
    by auto
  from f(3) have k: "set (map fl_frame_id fls) = {0, 2}" by auto
  from v f(1) have m: "map (length \<circ> fl_labels) fls = [0, 2]" by simp
  show ?thesis
    by (intro conjI exI[of _ fls]) (fact a p f(1) f(2) k m)+
qed

section \<open>Properties of cursor pagination\<close>

text \<open>
  When the pages fetched with \<open>page.cursor or page.next_page\<close> reach a page without
  continuation, \<open>paginate\<close> ends and yields the items of those pages, in order, once.
  For a cursor that is not the empty string, what is passed on is the cursor when there
  is one and the next-page URL otherwise.
\<close>

lemma paginate_from_last:
  "fetch_page cursor = Inr page \<Longrightarrow> \<not> has_next page
     \<Longrightarrow> paginate_from fetch_page cursor = Some (cp_items page, None)"
  by (subst paginate_from.simps) simp

lemma paginate_from_next:
  "fetch_page cursor = Inr page \<Longrightarrow> has_next page
     \<Longrightarrow> paginate_from fetch_page (cursor_or_next_page page) = Some (items, err)
     \<Longrightarrow> paginate_from fetch_page cursor = Some (cp_items page @ items, err)"
  by (subst paginate_from.simps) simp

lemma paginate_fetched_pages:
  "fetched_pages fetch_page cursor pages
     \<Longrightarrow> paginate_from fetch_page cursor = Some (concat (map cp_items pages), None)"
proof (induction fetch_page cursor pages rule: fetched_pages.induct)
  case (1 fetch_page cursor)
  then show ?case by simp
next
  case (2 fetch_page cursor page)
  then show ?case by (simp add: paginate_from_last)
next
  case (3 fetch_page cursor page next_page pages)
  then show ?case by (simp add: paginate_from_next)
qed

lemma cursor_or_next_page_nonempty:
  "cp_cursor page \<noteq> Some [] \<Longrightarrow>
     cursor_or_next_page page
       = (case cp_cursor page of None \<Rightarrow> cp_next_page page | Some c \<Rightarrow> Some c)"
  by (simp add: cursor_or_next_page_def split: option.splits)

lemma paginate_empty_cursor_loop:
  assumes "paginate_from fetch_page cursor = Some y"
  shows "\<not> (cursor = None \<and> (\<exists>page. fetch_page None = Inr page
              \<and> cp_cursor page = Some [] \<and> cp_next_page page = None))"
proof (rule paginate_from.raw_induct
    [where P = "\<lambda>fetch_page cursor y. \<not> (cursor = None \<and> (\<exists>page. fetch_page None = Inr page
              \<and> cp_cursor page = Some [] \<and> cp_next_page page = None))",
     OF _ assms], goal_cases)
  case (1 paginate_from' fetch_page cursor y)
  show ?case
  proof
    assume a: "cursor = None \<and> (\<exists>page. fetch_page None = Inr page
              \<and> cp_cursor page = Some [] \<and> cp_next_page page = None)"
    then obtain page where p: "fetch_page None = Inr page" "cp_cursor page = Some []"
      "cp_next_page page = None" by blast
    from a p 1(2) obtain y' where "paginate_from' fetch_page None = Some y'"
      by (auto simp: has_next_def cursor_or_next_page_def split: Option.bind_splits)
    from 1(1)[OF this] p show False by blast
  qed
qed

text \<open>
  C9, where it fails. Whenever the first page has the empty string as its cursor and no
  next-page URL, the page has a continuation for \<open>has_next\<close>, but
  \<open>page.cursor or page.next_page\<close> is \<open>None\<close>: the first page is fetched again with a
  null cursor, and \<open>paginate\<close> never ends.
\<close>

theorem paginate_empty_cursor_never_ends:
  assumes "fetch_page None = Inr page"
    and "cp_cursor page = Some []" and "cp_next_page page = None"
  shows "has_next page \<and> cursor_or_next_page page = None \<and> paginate fetch_page = None"
proof -
  have "paginate_from fetch_page None = None"
  proof (cases "paginate_from fetch_page None")
    case (Some y)
    from paginate_empty_cursor_loop[OF this] assms show ?thesis by blast
  qed simp
  with assms(2,3) show ?thesis
    by (simp add: paginate_def has_next_def cursor_or_next_page_def)
qed

text \<open>
  The failing input: the page that the empty cursor leads to has no continuation, and
  is never fetched.
\<close>

theorem paginate_empty_cursor_never_ends_witness:
  "empty_cursor_fetch None
     = Inr \<lparr>cp_items = [1], cp_total = None, cp_size = None,
            cp_cursor = Some [], cp_next_page = None\<rparr>
   \<and> empty_cursor_fetch (Some [])
     = Inr \<lparr>cp_items = [2], cp_total = None, cp_size = None,
            cp_cursor = None, cp_next_page = None\<rparr>
   \<and> paginate empty_cursor_fetch = None"
proof -
  have a: "empty_cursor_fetch None
     = Inr \<lparr>cp_items = [1], cp_total = None, cp_size = None,
            cp_cursor = Some [], cp_next_page = None\<rparr>"
    by (simp add: empty_cursor_fetch_def)
  have b: "empty_cursor_fetch (Some [])
     = Inr \<lparr>cp_items = [2], cp_total = None, cp_size = None,
            cp_cursor = None, cp_next_page = None\<rparr>"
    by (simp add: empty_cursor_fetch_def)
  from paginate_empty_cursor_never_ends[of empty_cursor_fetch, OF a] a b show ?thesis by simp
qed

section \<open>Properties of the evaluation runner\<close>

subsection \<open>Loops\<close>

lemma for_each_append:
  "for_each body (xs @ ys) s =
     (case for_each body xs s of
        (s', Some e) \<Rightarrow> (s', Some e)
      | (s', None) \<Rightarrow> for_each body ys s')"
  by (induction xs arbitrary: s) (auto split: prod.splits option.splits)

lemma for_each_invariant:
  assumes "for_each body xs s = (s', err)" and "I s"
    and "\<And>x s s' e. I s \<Longrightarrow> body x s = (s', e) \<Longrightarrow> I s'"
  shows "I s'"
  using assms(1,2)
proof (induction xs arbitrary: s)
  case Nil
  then show ?case by simp
next
  case (Cons x xs)
  obtain s1 e1 where b: "body x s = (s1, e1)" by (cases "body x s")
  have i1: "I s1" using assms(3)[OF Cons.prems(2) b] .
  show ?case
  proof (cases e1)
    case None
    with b Cons.prems(1) have "for_each body xs s1 = (s', err)" by simp
    then show ?thesis using i1 by (rule Cons.IH)
  next
    case (Some e)
    with b Cons.prems(1) have "s' = s1" by simp
    with i1 show ?thesis by simp
  qed
qed

lemma for_each_counted:
  assumes "for_each body xs s = (s', None)" and "I k s"
    and "\<And>x k s s'. I k s \<Longrightarrow> body x s = (s', None) \<Longrightarrow> I (k + 1) s'"
  shows "I (k + int (length xs)) s'"
  using assms(1,2)
proof (induction xs arbitrary: s k)
  case Nil
  then show ?case by simp
next
  case (Cons x xs)
  obtain s1 e1 where b: "body x s = (s1, e1)" by (cases "body x s")
  with Cons.prems(1) have e1: "e1 = None" and rest: "for_each body xs s1 = (s', None)"
    by (cases e1; simp)+
  from Cons.prems(2) b e1 have "I (k + 1) s1" by (auto intro: assms(3))
  from Cons.IH[OF rest this] show ?case by (simp add: algebra_simps)
qed

lemma for_gen_invariant:
  assumes "for_gen body g s = (s', err)" and "I s"
    and "\<And>x s s' e. I s \<Longrightarrow> body x s = (s', e) \<Longrightarrow> I s'"
  shows "I s'"
proof -
  obtain s1 e1 where f: "for_each body (fst g) s = (s1, e1)" by (cases "for_each body (fst g) s")
  have "I s1" by (rule for_each_invariant[where I = I, OF f assms(2)]) (rule assms(3))
  moreover from f assms(1) have "s' = s1" by (cases e1) (simp_all add: for_gen_def)
  ultimately show ?thesis by simp
qed

lemma for_gen_None:
  "for_gen body g s = (s', None) \<longleftrightarrow> for_each body (fst g) s = (s', None) \<and> snd g = None"
  by (auto simp: for_gen_def split: prod.splits option.splits)

subsection \<open>The job listing\<close>

lemma yield_job_invariant:
  assumes "yield_job srv cvat_labels body job_summary s = (s', err)" and "I s"
    and "\<And>x s s' e. I s \<Longrightarrow> body x s = (s', e) \<Longrightarrow> I s'"
  shows "I s'"
  using assms by (auto simp: yield_job_def split: sum.splits)

lemma jobs_pages_invariant_aux:
  assumes "jobs_pages srv task_id page_size cvat_labels body page s = Some y"
  shows "(\<forall>x s s' e. I s \<longrightarrow> body x s = (s', e) \<longrightarrow> I s') \<longrightarrow> I s \<longrightarrow> I (fst y)"
  proof (rule jobs_pages.raw_induct
      [where P = "\<lambda>srv task_id page_size cvat_labels body page s y.
          (\<forall>x s s' e. I s \<longrightarrow> body x s = (s', e) \<longrightarrow> I s') \<longrightarrow> I s \<longrightarrow> I (fst y)",
       OF _ assms], goal_cases)
    case (1 jobs_pages' srv task_id page_size cvat_labels body page s y)
    show ?case
    proof (intro impI)
      assume st: "\<forall>x s s' e. I s \<longrightarrow> body x s = (s', e) \<longrightarrow> I s'" and i: "I s"
      show "I (fst y)"
      proof (cases "srv_list_jobs srv task_id page page_size")
        case (Inl e)
        with 1(2) i show ?thesis by auto
      next
        case (Inr jobs_response)
        obtain s1 e1 where f: "for_each (yield_job srv cvat_labels body) (pr_results jobs_response) s = (s1, e1)"
          by (cases "for_each (yield_job srv cvat_labels body) (pr_results jobs_response) s")
        have i1: "I s1"
        proof (rule for_each_invariant[where I = I, OF f i])
          fix x s s' e assume a: "I s" "yield_job srv cvat_labels body x s = (s', e)"
          show "I s'"
            by (rule yield_job_invariant[where I = I, OF a(2) a(1)]) (use st in blast)
        qed
        show ?thesis
        proof (cases e1)
          case (Some e)
          with Inr f 1(2) have "y = (s1, Some e)" by simp
          with i1 show ?thesis by simp
        next
          case None
          show ?thesis
          proof (cases "pr_next jobs_response = None")
            case True
            with None Inr f 1(2) have "y = (s1, None)" by simp
            with i1 show ?thesis by simp
          next
            case False
            with None Inr f 1(2)
            have "jobs_pages' srv task_id page_size cvat_labels body (page + 1) s1 = Some y"
              by simp
            from 1(1)[OF this] st i1 show ?thesis by blast
          qed
        qed
      qed
    qed
  qed

lemma jobs_pages_invariant:
  assumes "jobs_pages srv task_id page_size cvat_labels body page s = Some (s', err)"
    and "I s"
    and step: "\<And>x s s' e. I s \<Longrightarrow> body x s = (s', e) \<Longrightarrow> I s'"
  shows "I s'"
  using jobs_pages_invariant_aux[OF assms(1), of I] assms(2) step by auto

lemma iter_jobs_with_annotations_invariant:
  assumes "iter_jobs_with_annotations srv task_id page_size body s = Some (s', err)"
    and "I s"
    and step: "\<And>x s s' e. I s \<Longrightarrow> body x s = (s', e) \<Longrightarrow> I s'"
  shows "I s'"
proof (cases "srv_task_labels srv task_id")
  case (Inl e)
  with assms(1,2) show ?thesis by (simp add: iter_jobs_with_annotations_def)
next
  case (Inr cvat_labels)
  with assms(1) have "jobs_pages srv task_id page_size cvat_labels body 1 s = Some (s', err)"
    by (simp add: iter_jobs_with_annotations_def)
  then show ?thesis using assms(2) step by (rule jobs_pages_invariant)
qed

lemma jobs_pages_task_jobs_aux:
  assumes "jobs_pages srv task_id page_size cvat_labels body page s = Some y"
  shows "snd y = None \<longrightarrow>
       (\<exists>js. task_jobs srv task_id page_size page = Some js
          \<and> for_each (yield_job srv cvat_labels body) js s = (fst y, None))"
  proof (rule jobs_pages.raw_induct
      [where P = "\<lambda>srv task_id page_size cvat_labels body page s y.
          snd y = None \<longrightarrow>
            (\<exists>js. task_jobs srv task_id page_size page = Some js
               \<and> for_each (yield_job srv cvat_labels body) js s = (fst y, None))",
       OF _ assms], goal_cases)
    case (1 jobs_pages' srv task_id page_size cvat_labels body page s y)
    show ?case
    proof (intro impI)
      assume y: "snd y = None"
      show "\<exists>js. task_jobs srv task_id page_size page = Some js
             \<and> for_each (yield_job srv cvat_labels body) js s = (fst y, None)"
      proof (cases "srv_list_jobs srv task_id page page_size")
        case (Inl e)
        with 1(2) y show ?thesis by auto
      next
        case (Inr jobs_response)
        obtain s1 e1 where f: "for_each (yield_job srv cvat_labels body) (pr_results jobs_response) s = (s1, e1)"
          by (cases "for_each (yield_job srv cvat_labels body) (pr_results jobs_response) s")
        show ?thesis
        proof (cases e1)
          case (Some e)
          with Inr f 1(2) have "y = (s1, Some e)" by simp
          with y show ?thesis by simp
        next
          case None
          show ?thesis
          proof (cases "pr_next jobs_response = None")
            case True
            with None Inr f 1(2) have "y = (s1, None)" by simp
            moreover from True Inr have "task_jobs srv task_id page_size page = Some (pr_results jobs_response)"
              by (subst task_jobs.simps) simp
            ultimately show ?thesis using f None by auto
          next
            case False
            with None Inr f 1(2)
            have "jobs_pages' srv task_id page_size cvat_labels body (page + 1) s1 = Some y"
              by simp
            from 1(1)[OF this] y obtain js where
              js: "task_jobs srv task_id page_size (page + 1) = Some js"
                  "for_each (yield_job srv cvat_labels body) js s1 = (fst y, None)"
              by blast
            from False Inr js(1)
            have "task_jobs srv task_id page_size page = Some (pr_results jobs_response @ js)"
              by (subst task_jobs.simps) auto
            moreover have "for_each (yield_job srv cvat_labels body) (pr_results jobs_response @ js) s
                             = (fst y, None)"
              using f None js(2) by (simp add: for_each_append)
            ultimately show ?thesis by blast
          qed
        qed
      qed
    qed
  qed

lemma jobs_pages_task_jobs:
  assumes "jobs_pages srv task_id page_size cvat_labels body page s = Some (s', None)"
  shows "\<exists>js. task_jobs srv task_id page_size page = Some js
            \<and> for_each (yield_job srv cvat_labels body) js s = (s', None)"
  using jobs_pages_task_jobs_aux[OF assms] by simp

lemma iter_jobs_task_jobs:
  assumes "iter_jobs_with_annotations srv task_id page_size body s = Some (s', None)"
  shows "\<exists>cvat_labels js. task_jobs srv task_id page_size 1 = Some js
            \<and> for_each (yield_job srv cvat_labels body) js s = (s', None)"
proof (cases "srv_task_labels srv task_id")
  case (Inl e)
  with assms show ?thesis by (simp add: iter_jobs_with_annotations_def)
next
  case (Inr cvat_labels)
  with assms have "jobs_pages srv task_id page_size cvat_labels body 1 s = Some (s', None)"
    by (simp add: iter_jobs_with_annotations_def)
  from jobs_pages_task_jobs[OF this] show ?thesis by blast
qed

subsection \<open>First pass\<close>

lemma count_job_None:
  "count_job srv ids (job_summary, anns) t = (t', None)
     \<Longrightarrow> t' = t + frames_counted srv ids job_summary"
  by (auto simp: count_job_def frames_counted_def Let_def split: if_splits sum.splits)

lemma count_pass:
  "for_each (yield_job srv cvat_labels (count_job srv ids)) js t = (t', None)
     \<Longrightarrow> t' = t + sum_list (map (frames_counted srv ids) js)"
proof (induction js arbitrary: t)
  case Nil
  then show ?case by simp
next
  case (Cons j js)
  obtain t1 e1 where y: "yield_job srv cvat_labels (count_job srv ids) j t = (t1, e1)"
    by (cases "yield_job srv cvat_labels (count_job srv ids) j t")
  with Cons.prems have e1: "e1 = None"
    and rest: "for_each (yield_job srv cvat_labels (count_job srv ids)) js t1 = (t', None)"
    by (cases e1; simp)+
  from y e1 have "t1 = t + frames_counted srv ids j"
    by (auto simp: yield_job_def split: sum.splits dest: count_job_None)
  with Cons.IH[OF rest] show ?case by simp
qed

subsection \<open>Second pass\<close>

lemma report_progress_None:
  assumes "report_progress args total_frames st = (st', None)"
  shows "current_batch st' = current_batch st"
    and "w_calls (rs_world st') = w_calls (rs_world st)"
  using assms
  by (auto simp: report_progress_def report_def Let_def split: option.splits)

lemma submit_when_full_None:
  assumes "submit_when_full r args evaluation_id st = (st', None)"
  shows "if int (length (current_batch st)) \<ge> ra_batch_size args
         then w_calls (rs_world st')
                = w_calls (rs_world st) @ [IngestBatch evaluation_id (current_batch st)]
              \<and> current_batch st' = []
         else st' = st"
  using assms
  by (auto simp: submit_when_full_def issue_def Let_def split: if_splits sum.splits)

lemma batched_step:
  assumes b: "batched args evaluation_id base k st"
    and batch: "current_batch st1 = current_batch st @ [frame_data]"
    and calls: "w_calls (rs_world st1) = w_calls (rs_world st)"
    and sub: "submit_when_full r args evaluation_id st1 = (st', None)"
  shows "batched args evaluation_id base (k + 1) st'"
proof -
  from b obtain bs where bs:
    "w_calls (rs_world st) = base @ map (IngestBatch evaluation_id) bs"
    "int (length (concat bs)) + int (length (current_batch st)) = k"
    "1 \<le> ra_batch_size args \<longrightarrow>
       (\<forall>b \<in> set bs. int (length b) = ra_batch_size args)
       \<and> int (length (current_batch st)) < ra_batch_size args"
    unfolding batched_def by (elim exE conjE)
  show ?thesis
  proof (cases "int (length (current_batch st1)) \<ge> ra_batch_size args")
    case True
    with submit_when_full_None[OF sub]
    have c': "w_calls (rs_world st')
                = w_calls (rs_world st1) @ [IngestBatch evaluation_id (current_batch st1)]"
      and b': "current_batch st' = []" by simp_all
    have "w_calls (rs_world st')
            = base @ map (IngestBatch evaluation_id) (bs @ [current_batch st1])"
      using c' calls bs(1) by simp
    moreover have "int (length (concat (bs @ [current_batch st1]))) + int (length (current_batch st')) = k + 1"
      using b' batch bs(2) by simp
    moreover have "1 \<le> ra_batch_size args \<longrightarrow>
       (\<forall>b \<in> set (bs @ [current_batch st1]). int (length b) = ra_batch_size args)
       \<and> int (length (current_batch st')) < ra_batch_size args"
      using bs(3) True batch b' by auto
    ultimately show ?thesis unfolding batched_def by blast
  next
    case False
    with submit_when_full_None[OF sub] have "st' = st1" by simp
    moreover have "int (length (concat bs)) + int (length (current_batch st1)) = k + 1"
      using batch bs(2) by simp
    moreover have "1 \<le> ra_batch_size args \<longrightarrow>
       (\<forall>b \<in> set bs. int (length b) = ra_batch_size args)
       \<and> int (length (current_batch st1)) < ra_batch_size args"
      using bs(3) False by auto
    ultimately show ?thesis unfolding batched_def using calls bs(1) by auto
  qed
qed

lemma process_frame_batched:
  assumes "batched args evaluation_id base k st"
    and "process_frame r args evaluation_id total_frames job_id lookup frame_image st = (st', None)"
  shows "batched args evaluation_id base (k + 1) st'"
proof -
  from assms(2) obtain frame_data st1 where
    rp: "report_progress args total_frames (st\<lparr>current_batch := current_batch st @ [frame_data]\<rparr>)
           = (st1, None)"
    and sub: "submit_when_full r args evaluation_id st1 = (st', None)"
    by (auto simp: process_frame_def Let_def split: sum.splits prod.splits option.splits)
  from report_progress_None[OF rp]
  have "current_batch st1 = current_batch st @ [frame_data]"
    and "w_calls (rs_world st1) = w_calls (rs_world st)" by simp_all
  with assms(1) show ?thesis using sub by (rule batched_step)
qed

lemma process_job_batched:
  assumes "batched args evaluation_id base k st"
    and "process_job r args evaluation_id total_frames ids (job_summary, anns) st = (st', None)"
  shows "batched args evaluation_id base (k + frames_yielded (rn_cvat r) ids job_summary) st'
       \<and> (\<not> skipped ids (js_id job_summary)
            \<longrightarrow> snd (iter_frames (rn_cvat r) (js_id job_summary)) = None)"
proof (cases "skipped ids (js_id job_summary)")
  case True
  with assms show ?thesis by (simp add: process_job_def frames_yielded_def)
next
  case False
  let ?lookup = "fold (\<lambda>frame_labels m. m(fl_frame_id frame_labels \<mapsto> fl_labels frame_labels))
                       anns Map.empty"
  let ?body = "process_frame r args evaluation_id total_frames (js_id job_summary) ?lookup"
  from False assms(2)
  have "for_gen ?body (iter_frames (rn_cvat r) (js_id job_summary)) st = (st', None)"
    by (simp add: process_job_def Let_def)
  then have fe: "for_each ?body (fst (iter_frames (rn_cvat r) (js_id job_summary))) st = (st', None)"
    and g: "snd (iter_frames (rn_cvat r) (js_id job_summary)) = None"
    by (simp_all add: for_gen_None)
  have "batched args evaluation_id base
          (k + int (length (fst (iter_frames (rn_cvat r) (js_id job_summary))))) st'"
    by (rule for_each_counted[where I = "batched args evaluation_id base", OF fe assms(1)])
       (rule process_frame_batched)
  with False g show ?thesis by (simp add: frames_yielded_def)
qed

lemma process_pass:
  "for_each (yield_job (rn_cvat r) cvat_labels
       (process_job r args evaluation_id total_frames ids)) js st = (st', None)
   \<Longrightarrow> batched args evaluation_id base k st
   \<Longrightarrow> batched args evaluation_id base
         (k + sum_list (map (frames_yielded (rn_cvat r) ids) js)) st'
       \<and> (\<forall>j \<in> set js. \<not> skipped ids (js_id j)
             \<longrightarrow> snd (iter_frames (rn_cvat r) (js_id j)) = None)"
proof (induction js arbitrary: st k)
  case Nil
  then show ?case by simp
next
  case (Cons j js)
  let ?body = "yield_job (rn_cvat r) cvat_labels (process_job r args evaluation_id total_frames ids)"
  obtain st1 e1 where y: "?body j st = (st1, e1)" by (cases "?body j st")
  with Cons.prems(1) have e1: "e1 = None" and rest: "for_each ?body js st1 = (st', None)"
    by (cases e1; simp)+
  from y e1 obtain anns where
    "process_job r args evaluation_id total_frames ids (j, anns) st = (st1, None)"
    by (auto simp: yield_job_def split: sum.splits)
  from process_job_batched[OF Cons.prems(2) this]
  have b1: "batched args evaluation_id base (k + frames_yielded (rn_cvat r) ids j) st1"
    and g: "\<not> skipped ids (js_id j) \<longrightarrow> snd (iter_frames (rn_cvat r) (js_id j)) = None"
    by simp_all
  from Cons.IH[OF rest b1] g show ?case by (simp add: algebra_simps)
qed

subsection \<open>A run that returns\<close>

lemma finish_Inr:
  assumes "finish r evaluation_id st = (w', Inr result)"
  shows "w_calls w' = w_calls (rs_world st)
           @ map (IngestBatch evaluation_id) (if current_batch st = [] then [] else [current_batch st])
           @ [Finalize evaluation_id, Get evaluation_id]"
  using assms
  by (auto simp: finish_def issue_def Let_def split: if_splits sum.splits prod.splits option.splits)

lemma new_EvaluationCreate_total:
  "new_EvaluationCreate a d n v p total_frames = Inr evaluation
     \<Longrightarrow> ec_total_frames evaluation = Some total_frames"
  by (auto simp: new_EvaluationCreate_def split: if_splits)

lemma run_and_submit_success:
  assumes "run_and_submit r args w = Some (w', Inr result)"
  shows "\<exists>js evaluation evaluation_id bs batch.
       task_jobs (rn_cvat r) (ra_task_id args) 100 1 = Some js
     \<and> ec_total_frames evaluation
         = Some (sum_list (map (frames_counted (rn_cvat r) (map_option set (ra_job_ids args))) js))
     \<and> w_calls w' = w_calls w @ Create evaluation
         # map (IngestBatch evaluation_id) (bs @ (if batch = [] then [] else [batch]))
         @ [Finalize evaluation_id, Get evaluation_id]
     \<and> int (length (concat bs)) + int (length batch)
         = sum_list (map (frames_yielded (rn_cvat r) (map_option set (ra_job_ids args))) js)
     \<and> (\<forall>j \<in> set js. \<not> skipped (map_option set (ra_job_ids args)) (js_id j)
           \<longrightarrow> snd (iter_frames (rn_cvat r) (js_id j)) = None)
     \<and> (1 \<le> ra_batch_size args \<longrightarrow>
           (\<forall>b \<in> set bs. int (length b) = ra_batch_size args)
         \<and> int (length batch) < ra_batch_size args)"
proof -
  let ?ids = "map_option set (ra_job_ids args)"
  let ?srv = "rn_cvat r"
  from assms obtain total_frames where
    p1: "iter_jobs_with_annotations ?srv (ra_task_id args) 100 (count_job ?srv ?ids) 0
           = Some (total_frames, None)"
    by (auto simp: run_and_submit_def Let_def split: option.splits prod.splits sum.splits)
  from assms p1 obtain evaluation where
    ev: "new_EvaluationCreate (ra_agent_id args) (ra_task_id args) (ra_agent_name args)
           (ra_agent_version args) CLIENT_SDK total_frames = Inr evaluation"
    by (auto simp: run_and_submit_def Let_def split: option.splits prod.splits sum.splits)
  let ?w1 = "w\<lparr>w_calls := w_calls w @ [Create evaluation]\<rparr>"
  from assms p1 ev obtain evaluation_id where
    cr: "ds_create (rn_dataup r) evaluation = Inr evaluation_id"
    by (auto simp: run_and_submit_def Let_def split: option.splits prod.splits sum.splits)
  let ?st0 = "\<lparr>processed_frames = 0, current_batch = [], rs_world = ?w1\<rparr>"
  from assms p1 ev cr obtain st where
    p2: "iter_jobs_with_annotations ?srv (ra_task_id args) 100
           (process_job r args evaluation_id total_frames ?ids) ?st0 = Some (st, None)"
    and fin: "finish r evaluation_id st = (w', Inr result)"
    by (auto simp: run_and_submit_def Let_def split: option.splits prod.splits sum.splits)
  from iter_jobs_task_jobs[OF p1] obtain l1 js where
    js: "task_jobs ?srv (ra_task_id args) 100 1 = Some js"
    and f1: "for_each (yield_job ?srv l1 (count_job ?srv ?ids)) js 0 = (total_frames, None)"
    by blast
  from iter_jobs_task_jobs[OF p2] js obtain l2 where
    f2: "for_each (yield_job ?srv l2 (process_job r args evaluation_id total_frames ?ids)) js ?st0
           = (st, None)"
    by auto
  from count_pass[OF f1] have tot: "total_frames = sum_list (map (frames_counted ?srv ?ids) js)"
    by simp
  have b0: "batched args evaluation_id (w_calls w @ [Create evaluation]) 0 ?st0"
    unfolding batched_def by (intro exI[of _ "[]"]) simp
  from process_pass[OF f2 b0]
  have bst: "batched args evaluation_id (w_calls w @ [Create evaluation])
               (sum_list (map (frames_yielded ?srv ?ids) js)) st"
    and gens: "\<forall>j \<in> set js. \<not> skipped ?ids (js_id j) \<longrightarrow> snd (iter_frames ?srv (js_id j)) = None"
    by simp_all
  from bst obtain bs where bs:
    "w_calls (rs_world st) = (w_calls w @ [Create evaluation]) @ map (IngestBatch evaluation_id) bs"
    "int (length (concat bs)) + int (length (current_batch st))
       = sum_list (map (frames_yielded ?srv ?ids) js)"
    "1 \<le> ra_batch_size args \<longrightarrow>
       (\<forall>b \<in> set bs. int (length b) = ra_batch_size args)
       \<and> int (length (current_batch st)) < ra_batch_size args"
    unfolding batched_def by (elim exE conjE)
  have calls: "w_calls w' = w_calls w @ Create evaluation
         # map (IngestBatch evaluation_id) (bs @ (if current_batch st = [] then [] else [current_batch st]))
         @ [Finalize evaluation_id, Get evaluation_id]"
    using finish_Inr[OF fin] bs(1) by simp
  have "ec_total_frames evaluation = Some (sum_list (map (frames_counted ?srv ?ids) js))"
    using new_EvaluationCreate_total[OF ev] tot by simp
  with js calls bs(2,3) gens show ?thesis by blast
qed

text \<open>The scenario of the specification, run.\<close>

lemma scenario_run:
  "run_and_submit scenario_runner scenario_args fresh_world
     = Some (\<lparr>w_cvat_closed = False, w_dataup_closed = False,
              w_calls =
                [Create \<lparr>ec_agent_id = None, ec_dataset_id = 1, ec_agent_name = Some ''my-model'',
                         ec_agent_version = Some ''1.0.0'', ec_prediction_source = CLIENT_SDK,
                         ec_total_frames = Some 4\<rparr>,
                 IngestBatch ''ev1''
                   [\<lparr>fd_job_id = 11, fd_frame_id = 0, fd_ground_truth = [],
                     fd_predictions = Some [], fd_image_width = Some 640,
                     fd_image_height = Some 480\<rparr>,
                    \<lparr>fd_job_id = 11, fd_frame_id = 2,
                     fd_ground_truth =
                       [\<lparr>lbl_label = ''car'', lbl_score = 1,
                         lbl_bbox = Some \<lparr>bb_x = 10, bb_y = 10, bb_width = 40, bb_height = 30\<rparr>,
                         lbl_polygon = None, lbl_attributes = []\<rparr>,
                        \<lparr>lbl_label = ''label_8'', lbl_score = 1,
                         lbl_bbox = Some \<lparr>bb_x = 80, bb_y = 90, bb_width = 40, bb_height = 20\<rparr>,
                         lbl_polygon = None, lbl_attributes = []\<rparr>],
                     fd_predictions = Some [], fd_image_width = Some 640,
                     fd_image_height = Some 480\<rparr>],
                 IngestBatch ''ev1''
                   [\<lparr>fd_job_id = 12, fd_frame_id = 3, fd_ground_truth = [],
                     fd_predictions = Some [], fd_image_width = Some 640,
                     fd_image_height = Some 480\<rparr>,
                    \<lparr>fd_job_id = 12, fd_frame_id = 4, fd_ground_truth = [],
                     fd_predictions = Some [], fd_image_width = Some 640,
                     fd_image_height = Some 480\<rparr>],
                 Finalize ''ev1'', Get ''ev1''],
              w_progress = []\<rparr>,
             Inr \<lparr>er_id = ''ev1'', er_total_frames = Some 4, er_received_frames = 4\<rparr>)"
  by code_simp

lemma scenario_task_jobs:
  "task_jobs scenario_cvat 1 100 1
     = Some [\<lparr>js_id = 11, js_start_frame = 0, js_stop_frame = 2\<rparr>,
             \<lparr>js_id = 12, js_start_frame = 3, js_stop_frame = 4\<rparr>]"
  by code_simp

subsection \<open>The total of the first pass\<close>

lemma length_undeleted:
  assumes "distinct del" and "set del \<subseteq> {a..b}" and "a \<le> b + 1"
  shows "int (length (filter (\<lambda>f. f \<notin> set del) [a..b])) = b - a + 1 - int (length del)"
proof -
  have "length (filter (\<lambda>f. f \<in> set del) [a..b]) = card ({f. f \<in> set del} \<inter> set [a..b])"
    by (rule distinct_length_filter) simp
  also have "{f. f \<in> set del} \<inter> set [a..b] = set del" using assms(2) by auto
  also have "card (set del) = length del" using assms(1) by (rule distinct_card)
  finally have d: "length (filter (\<lambda>f. f \<in> set del) [a..b]) = length del" .
  have "length (filter (\<lambda>f. f \<in> set del) [a..b]) + length (filter (\<lambda>f. \<not> f \<in> set del) [a..b])
          = length [a..b]"
    by (rule sum_length_filter_compl)
  with d have "int (length (filter (\<lambda>f. f \<notin> set del) [a..b])) = int (length [a..b]) - int (length del)"
    by linarith
  moreover have "int (length [a..b]) = b - a + 1" using assms(3) by simp
  ultimately show ?thesis by linarith
qed

lemma counted_eq_yielded:
  assumes "\<not> skipped ids (js_id j) \<longrightarrow> snd (iter_frames srv (js_id j)) = None"
    and wf: "\<And>job meta. \<not> skipped ids (js_id j) \<Longrightarrow> srv_job srv (js_id j) = Inr job \<Longrightarrow>
               srv_data_meta srv (js_id j) = Inr meta \<Longrightarrow>
               distinct (dm_deleted_frames meta)
             \<and> set (dm_deleted_frames meta) \<subseteq> {jb_start_frame job .. jb_stop_frame job}
             \<and> jb_start_frame job \<le> jb_stop_frame job + 1"
  shows "frames_counted srv ids j = frames_yielded srv ids j"
proof (cases "skipped ids (js_id j)")
  case True
  then show ?thesis by (simp add: frames_counted_def frames_yielded_def)
next
  case False
  with assms(1) have "snd (iter_frames srv (js_id j)) = None" by simp
  from iter_frames_complete[OF this] obtain job meta where
    j: "srv_job srv (js_id j) = Inr job" and m: "srv_data_meta srv (js_id j) = Inr meta"
    and ids: "map fi_frame_id (fst (iter_frames srv (js_id j)))
               = filter (\<lambda>f. f \<notin> set (dm_deleted_frames meta))
                   [jb_start_frame job .. jb_stop_frame job]"
    by blast
  from wf[OF False j m] have
    "int (length (filter (\<lambda>f. f \<notin> set (dm_deleted_frames meta))
            [jb_start_frame job .. jb_stop_frame job]))
       = jb_stop_frame job - jb_start_frame job + 1 - int (length (dm_deleted_frames meta))"
    by (intro length_undeleted) simp_all
  moreover have "length (fst (iter_frames srv (js_id j)))
      = length (filter (\<lambda>f. f \<notin> set (dm_deleted_frames meta))
            [jb_start_frame job .. jb_stop_frame job])"
    using arg_cong[OF ids, of length] by simp
  ultimately show ?thesis using False j m by (simp add: frames_counted_def frames_yielded_def)
qed

text \<open>
  C1 (as amended). For every run that returns, over a task each of whose in-scope jobs
  has a duplicate-free list of deleted frames, contained in the job's range from
  \<open>start_frame\<close> to \<open>stop_frame\<close>, and has \<open>start_frame \<le> stop_frame + 1\<close>, and
  for any job-id filter: the calls of the run are one create call, the ingestion calls,
  one finalize call and the read-back, and the total of the first pass, sent with the
  create call, is the number of frame records in the ingestion calls.
\<close>

theorem first_pass_total_is_submitted_count:
  assumes "run_and_submit r args w = Some (w', Inr result)"
    and wf: "\<And>js j job meta.
               task_jobs (rn_cvat r) (ra_task_id args) 100 1 = Some js \<Longrightarrow> j \<in> set js \<Longrightarrow>
               \<not> skipped (map_option set (ra_job_ids args)) (js_id j) \<Longrightarrow>
               srv_job (rn_cvat r) (js_id j) = Inr job \<Longrightarrow>
               srv_data_meta (rn_cvat r) (js_id j) = Inr meta \<Longrightarrow>
               distinct (dm_deleted_frames meta)
             \<and> set (dm_deleted_frames meta) \<subseteq> {jb_start_frame job .. jb_stop_frame job}
             \<and> jb_start_frame job \<le> jb_stop_frame job + 1"
  shows "\<exists>evaluation evaluation_id batches.
           w_calls w' = w_calls w @ Create evaluation
             # map (IngestBatch evaluation_id) batches
             @ [Finalize evaluation_id, Get evaluation_id]
         \<and> ec_total_frames evaluation = Some (int (length (concat batches)))"
proof -
  let ?ids = "map_option set (ra_job_ids args)"
  let ?srv = "rn_cvat r"
  from run_and_submit_success[OF assms(1)] obtain js evaluation evaluation_id bs batch where
    js: "task_jobs ?srv (ra_task_id args) 100 1 = Some js"
    and tot: "ec_total_frames evaluation = Some (sum_list (map (frames_counted ?srv ?ids) js))"
    and calls: "w_calls w' = w_calls w @ Create evaluation
         # map (IngestBatch evaluation_id) (bs @ (if batch = [] then [] else [batch]))
         @ [Finalize evaluation_id, Get evaluation_id]"
    and len: "int (length (concat bs)) + int (length batch)
         = sum_list (map (frames_yielded ?srv ?ids) js)"
    and gens: "\<forall>j \<in> set js. \<not> skipped ?ids (js_id j)
           \<longrightarrow> snd (iter_frames ?srv (js_id j)) = None"
    by blast
  have "frames_counted ?srv ?ids j = frames_yielded ?srv ?ids j" if "j \<in> set js" for j
    using gens that wf[OF js that] by (intro counted_eq_yielded) blast+
  then have "map (frames_counted ?srv ?ids) js = map (frames_yielded ?srv ?ids) js" by simp
  moreover have "int (length (concat (bs @ (if batch = [] then [] else [batch]))))
      = int (length (concat bs)) + int (length batch)"
    by simp
  ultimately have "ec_total_frames evaluation
      = Some (int (length (concat (bs @ (if batch = [] then [] else [batch])))))"
    using tot len by (simp only:)
  with calls show ?thesis by blast
qed

text \<open>The scenario: a total of 4, and 4 frame records submitted.\<close>

theorem first_pass_total_is_submitted_count_witness:
  "\<exists>w' result.
     run_and_submit scenario_runner scenario_args fresh_world = Some (w', Inr result)
   \<and> (\<exists>evaluation evaluation_id batches.
         w_calls w' = w_calls fresh_world @ Create evaluation
           # map (IngestBatch evaluation_id) batches
           @ [Finalize evaluation_id, Get evaluation_id]
       \<and> ec_total_frames evaluation = Some (int (length (concat batches))))"
proof (rule exI, rule exI, rule conjI, rule scenario_run,
    rule first_pass_total_is_submitted_count[OF scenario_run])
  fix js j job meta
  assume js: "task_jobs (rn_cvat scenario_runner) (ra_task_id scenario_args) 100 1 = Some js"
    and j: "j \<in> set js"
    and job: "srv_job (rn_cvat scenario_runner) (js_id j) = Inr job"
    and meta: "srv_data_meta (rn_cvat scenario_runner) (js_id j) = Inr meta"
  from js have "js = [\<lparr>js_id = 11, js_start_frame = 0, js_stop_frame = 2\<rparr>,
           \<lparr>js_id = 12, js_start_frame = 3, js_stop_frame = 4\<rparr>]"
    by (simp add: scenario_runner_def scenario_args_def scenario_task_jobs)
  with j have "js_id j = 11 \<or> js_id j = 12" by auto
  with job meta show "distinct (dm_deleted_frames meta)
             \<and> set (dm_deleted_frames meta) \<subseteq> {jb_start_frame job .. jb_stop_frame job}
             \<and> jb_start_frame job \<le> jb_stop_frame job + 1"
    by (auto simp: scenario_runner_def scenario_cvat_def)
qed

text \<open>
  Job 11 with \<open>start_frame = 3\<close> and \<open>stop_frame = 1\<close> has no frame and no deleted
  frame; the first pass counts \<open>1 - 3 + 1 = -1\<close> for it and 2 for job 12, so the run is
  created with a total of 1 and submits 2 frame records.
\<close>

theorem first_pass_total_counterexample:
  "run_and_submit scenario_reversed_runner scenario_args fresh_world
     = Some (\<lparr>w_cvat_closed = False, w_dataup_closed = False,
              w_calls =
                [Create \<lparr>ec_agent_id = None, ec_dataset_id = 1, ec_agent_name = Some ''my-model'',
                         ec_agent_version = Some ''1.0.0'', ec_prediction_source = CLIENT_SDK,
                         ec_total_frames = Some 1\<rparr>,
                 IngestBatch ''ev1''
                   [\<lparr>fd_job_id = 12, fd_frame_id = 0, fd_ground_truth = [],
                     fd_predictions = Some [], fd_image_width = Some 640,
                     fd_image_height = Some 480\<rparr>,
                    \<lparr>fd_job_id = 12, fd_frame_id = 1, fd_ground_truth = [],
                     fd_predictions = Some [], fd_image_width = Some 640,
                     fd_image_height = Some 480\<rparr>],
                 Finalize ''ev1'', Get ''ev1''],
              w_progress = []\<rparr>,
             Inr \<lparr>er_id = ''ev1'', er_total_frames = Some 4, er_received_frames = 4\<rparr>)"
  by code_simp

subsection \<open>Batches\<close>






subsection \<open>The connections\<close>

lemma report_progress_connections:
  "report_progress args total_frames st = (st', e) \<Longrightarrow> connections_as w st
     \<Longrightarrow> connections_as w st'"
  by (auto simp: report_progress_def report_def connections_as_def Let_def split: option.splits)

lemma submit_when_full_connections:
  "submit_when_full r args evaluation_id st = (st', e) \<Longrightarrow> connections_as w st
     \<Longrightarrow> connections_as w st'"
  by (auto simp: submit_when_full_def issue_def connections_as_def Let_def
      split: if_splits sum.splits)

lemma process_frame_connections:
  assumes "connections_as w st"
    and "process_frame r args evaluation_id total_frames job_id lookup frame_image st = (st', e)"
  shows "connections_as w st'"
proof (cases "rn_image_open r (fi_data frame_image)")
  case (Inl x)
  with assms show ?thesis by (simp add: process_frame_def)
next
  case (Inr pil_image)
  show ?thesis
  proof (cases "rn_predict r pil_image (ra_conf args) (ra_iou args)")
    case (Inl x)
    with Inr assms show ?thesis by (simp add: process_frame_def)
  next
    case pr: (Inr predictions)
    let ?gt = "case lookup (fi_frame_id frame_image) of None \<Rightarrow> [] | Some ls \<Rightarrow> ls"
    show ?thesis
    proof (cases "new_FrameData job_id (fi_frame_id frame_image) ?gt predictions
                    (img_width pil_image) (img_height pil_image)")
      case (Inl x)
      with Inr pr assms show ?thesis by (simp add: process_frame_def Let_def)
    next
      case fd: (Inr frame_data)
      let ?st0 = "st\<lparr>current_batch := current_batch st @ [frame_data]\<rparr>"
      obtain st1 e1 where rp: "report_progress args total_frames ?st0 = (st1, e1)"
        by (cases "report_progress args total_frames ?st0")
      have c0: "connections_as w ?st0" using assms(1) by (simp add: connections_as_def)
      from report_progress_connections[OF rp c0] have c1: "connections_as w st1" .
      show ?thesis
      proof (cases e1)
        case None
        with Inr pr fd rp assms(2)
        have "submit_when_full r args evaluation_id st1 = (st', e)"
          by (simp add: process_frame_def Let_def)
        from submit_when_full_connections[OF this c1] show ?thesis .
      next
        case (Some x)
        with Inr pr fd rp assms(2) have "st' = st1" by (simp add: process_frame_def Let_def)
        with c1 show ?thesis by simp
      qed
    qed
  qed
qed

lemma process_job_connections:
  assumes "connections_as w st"
    and "process_job r args evaluation_id total_frames ids yielded st = (st', e)"
  shows "connections_as w st'"
proof (cases "skipped ids (js_id (fst yielded))")
  case True
  with assms show ?thesis by (simp add: process_job_def)
next
  case False
  with assms(2) obtain body g where "for_gen (process_frame r args evaluation_id total_frames
      (js_id (fst yielded)) body) g st = (st', e)"
    by (simp add: process_job_def Let_def)
  then show ?thesis
    by (rule for_gen_invariant[where I = "connections_as w"])
       (use assms(1) process_frame_connections in blast)+
qed

lemma finish_connections:
  assumes "connections_as w st" and "finish r evaluation_id st = (w', res)"
  shows "w_cvat_closed w' = w_cvat_closed w \<and> w_dataup_closed w' = w_dataup_closed w"
  using assms
  by (auto simp: finish_def issue_def connections_as_def Let_def
      split: if_splits sum.splits prod.splits option.splits)

text \<open>
  C8 (as amended). \<open>run_and_submit\<close> closes neither connection: when it exits, by
  returning or by raising, the annotation-source connection and the evaluation-service
  connection are closed exactly if they were before the call. Releasing them is left to
  the caller.
\<close>

theorem run_and_submit_never_closes:
  assumes "run_and_submit r args w = Some (w', res)"
  shows "w_cvat_closed w' = w_cvat_closed w \<and> w_dataup_closed w' = w_dataup_closed w"
proof -
  let ?ids = "map_option set (ra_job_ids args)"
  let ?srv = "rn_cvat r"
  obtain total_frames e1 where
    p1: "iter_jobs_with_annotations ?srv (ra_task_id args) 100 (count_job ?srv ?ids) 0
           = Some (total_frames, e1)"
    using assms by (auto simp: run_and_submit_def Let_def split: option.splits)
  show ?thesis
  proof (cases e1)
    case (Some e)
    with p1 assms show ?thesis by (simp add: run_and_submit_def Let_def)
  next
    case None
    show ?thesis
    proof (cases "new_EvaluationCreate (ra_agent_id args) (ra_task_id args) (ra_agent_name args)
           (ra_agent_version args) CLIENT_SDK total_frames")
      case (Inl e)
      with None p1 assms show ?thesis by (simp add: run_and_submit_def Let_def)
    next
      case ev: (Inr evaluation)
      let ?w1 = "w\<lparr>w_calls := w_calls w @ [Create evaluation]\<rparr>"
      show ?thesis
      proof (cases "ds_create (rn_dataup r) evaluation")
        case (Inl e)
        with None p1 ev assms show ?thesis by (auto simp: run_and_submit_def Let_def)
      next
        case cr: (Inr evaluation_id)
        let ?st0 = "\<lparr>processed_frames = 0, current_batch = [], rs_world = ?w1\<rparr>"
        obtain st e2 where
          p2: "iter_jobs_with_annotations ?srv (ra_task_id args) 100
                 (process_job r args evaluation_id total_frames ?ids) ?st0 = Some (st, e2)"
          using None p1 ev cr assms
          by (auto simp: run_and_submit_def Let_def split: option.splits)
        have c0: "connections_as w ?st0" by (simp add: connections_as_def)
        have c: "connections_as w st"
          by (rule iter_jobs_with_annotations_invariant[where I = "connections_as w", OF p2 c0])
             (rule process_job_connections)
        show ?thesis
        proof (cases e2)
          case (Some e)
          with None p1 ev cr p2 assms have "w' = rs_world st"
            by (simp add: run_and_submit_def Let_def)
          with c show ?thesis by (simp add: connections_as_def)
        next
          case n2: None
          with None p1 ev cr p2 assms have "finish r evaluation_id st = (w', res)"
            by (simp add: run_and_submit_def Let_def)
          from finish_connections[OF c this] show ?thesis .
        qed
      qed
    qed
  qed
qed

text \<open>The run in which \<open>predict\<close> raises: both connections are left open.\<close>

theorem run_and_submit_never_closes_witness:
  "run_and_submit scenario_failing_runner scenario_args fresh_world
     = Some (\<lparr>w_cvat_closed = False, w_dataup_closed = False,
              w_calls =
                [Create \<lparr>ec_agent_id = None, ec_dataset_id = 1, ec_agent_name = Some ''my-model'',
                         ec_agent_version = Some ''1.0.0'', ec_prediction_source = CLIENT_SDK,
                         ec_total_frames = Some 4\<rparr>],
              w_progress = []\<rparr>,
             Inl InferenceError)
   \<and> w_cvat_closed fresh_world = False \<and> w_dataup_closed fresh_world = False"
proof -
  have e: "run_and_submit scenario_failing_runner scenario_args fresh_world
     = Some (\<lparr>w_cvat_closed = False, w_dataup_closed = False,
              w_calls =
                [Create \<lparr>ec_agent_id = None, ec_dataset_id = 1, ec_agent_name = Some ''my-model'',
                         ec_agent_version = Some ''1.0.0'', ec_prediction_source = CLIENT_SDK,
                         ec_total_frames = Some 4\<rparr>],
              w_progress = []\<rparr>,
             Inl InferenceError)"
    by code_simp
  from run_and_submit_never_closes[OF e] e show ?thesis by simp
qed

text \<open>
  After the scenario's run has returned, and after the run in which \<open>predict\<close> raises
  has raised, neither connection is closed.
\<close>

theorem run_and_submit_closes_counterexample:
  "map_option (w_cvat_closed \<circ> fst)
       (run_and_submit scenario_runner scenario_args fresh_world) = Some False
   \<and> map_option (w_dataup_closed \<circ> fst)
       (run_and_submit scenario_runner scenario_args fresh_world) = Some False
   \<and> map_option snd (run_and_submit scenario_runner scenario_args fresh_world)
       = Some (Inr \<lparr>er_id = ''ev1'', er_total_frames = Some 4, er_received_frames = 4\<rparr>)
   \<and> map_option (w_cvat_closed \<circ> fst)
       (run_and_submit scenario_failing_runner scenario_args fresh_world) = Some False
   \<and> map_option (w_dataup_closed \<circ> fst)
       (run_and_submit scenario_failing_runner scenario_args fresh_world) = Some False
   \<and> map_option snd (run_and_submit scenario_failing_runner scenario_args fresh_world)
       = Some (Inl InferenceError)"
  by code_simp

end
